theory Spec2Isabelle
  imports Complex_Main "HOL-Library.Char_ord" "HOL-Library.List_Lexorder" "HOL-Library.Multiset"
    "HOL-Library.Product_Lexorder"
begin

section \<open>Data frames\<close>

text \<open>
  A pandas column is modelled with its dtype: numeric columns (int64 and float64, a
  missing value NaN being \<open>None\<close>), boolean columns and object columns of strings.
  Floating-point numbers are idealised as reals throughout.  A data frame is the list
  of its named columns in column order; the originator-id column \<open>nameOrig\<close> (an
  object column of account names) is kept apart, \<open>None\<close> when the frame has no such
  column.
\<close>

datatype column = NumCol "real option list" | BoolCol "bool list" | ObjCol "string list"

record frame =
  ids :: "string list option"
  cols :: "(string \<times> column) list"

datatype error = KeyError | TypeError | ValueError

datatype message = Scored nat nat | NoFeatures | Built nat | Flagged nat nat | Error error

fun col_len :: "column \<Rightarrow> nat" where
  "col_len (NumCol xs) = length xs"
| "col_len (BoolCol bs) = length bs"
| "col_len (ObjCol ss) = length ss"

definition nrows :: "frame \<Rightarrow> nat" where
  "nrows f = (case ids f of Some ks \<Rightarrow> length ks
              | None \<Rightarrow> (case cols f of [] \<Rightarrow> 0 | (n, c) # rest \<Rightarrow> col_len c))"

text \<open>Every column of a frame has one entry per row, and column names are unique.\<close>

definition wf_frame :: "frame \<Rightarrow> bool" where
  "wf_frame f = (distinct (map fst (cols f)) \<and> (\<forall>p \<in> set (cols f). col_len (snd p) = nrows f))"

text \<open>\<open>df[name] = values\<close>: an existing column is replaced where it stands, a new one is
  appended.\<close>

fun set_col :: "string \<Rightarrow> column \<Rightarrow> (string \<times> column) list \<Rightarrow> (string \<times> column) list" where
  "set_col n c [] = [(n, c)]"
| "set_col n c ((m, d) # rest) = (if m = n then (n, c) # rest else (m, d) # set_col n c rest)"

definition is_numeric :: "column \<Rightarrow> bool" where
  "is_numeric c = (case c of NumCol xs \<Rightarrow> True | _ \<Rightarrow> False)"

text \<open>\<open>select_dtypes(include=[np.number]).columns\<close>: boolean and object columns are not
  numeric.\<close>

definition numeric_cols :: "(string \<times> column) list \<Rightarrow> string list" where
  "numeric_cols cs = map fst (filter (\<lambda>p. is_numeric (snd p)) cs)"

text \<open>The values of a column as numbers: booleans count as 0 and 1, strings raise.\<close>

fun numeric_view :: "column \<Rightarrow> error + real option list" where
  "numeric_view (NumCol xs) = Inr xs"
| "numeric_view (BoolCol bs) = Inr (map (\<lambda>b. Some (if b then 1 else 0)) bs)"
| "numeric_view (ObjCol ss) = Inl TypeError"

fun dropna :: "real option list \<Rightarrow> real list" where
  "dropna [] = []"
| "dropna (None # xs) = dropna xs"
| "dropna (Some x # xs) = x # dropna xs"

definition mean :: "real list \<Rightarrow> real option" where
  "mean xs = (if xs = [] then None else Some (sum_list xs / real (length xs)))"

text \<open>Comparisons with NaN are false.\<close>

fun gt :: "real option \<Rightarrow> real option \<Rightarrow> bool" where
  "gt (Some a) (Some b) = (a > b)"
| "gt _ _ = False"

section \<open>RiskScorer\<close>

record risk_scorer =
  risk_scores :: "frame option"
  z_score_threshold :: real

definition risk_bands :: "(string \<times> real \<times> real) list" where
  "risk_bands = [(''Low'', 0, 25), (''Medium'', 25, 50), (''High'', 50, 75), (''Critical'', 75, 100)]"

definition risk_features :: "string list" where
  "risk_features = [''amount'', ''balance_ratio_orig'', ''is_full_drain'', ''trns_count_customer'',
     ''trns_total_customer'', ''trns_avg_customer'', ''trns_max_customer'', ''daily_trns_velocity'',
     ''rolling_mean_amount'', ''rolling_max_amount'']"

subsection \<open>Aggregation to customer level\<close>

definition group_vals :: "'k list \<Rightarrow> 'k \<Rightarrow> 'a list \<Rightarrow> 'a list" where
  "group_vals keys k xs = map snd (filter (\<lambda>p. fst p = k) (zip keys xs))"

text \<open>Group-wise \<open>sum\<close> and \<open>mean\<close> skip NaN; the sum of no values is 0, their mean NaN.\<close>

definition agg_sum :: "real option list \<Rightarrow> real option" where
  "agg_sum xs = Some (sum_list (dropna xs))"

definition agg_mean :: "real option list \<Rightarrow> real option" where
  "agg_mean xs = mean (dropna xs)"

definition sum_columns :: "string list" where
  "sum_columns = [''is_full_drain'', ''trns_count_customer'', ''daily_trns_velocity'']"

definition agg_dict :: "string \<Rightarrow> real option list \<Rightarrow> real option" where
  "agg_dict col = (if col \<in> set sum_columns then agg_sum else agg_mean)"

fun agg_column :: "string list \<Rightarrow> string list \<Rightarrow> string \<times> column \<Rightarrow> (string \<times> column) list" where
  "agg_column keys groups (n, NumCol xs) =
     [(n, NumCol (map (\<lambda>k. agg_dict n (group_vals keys k xs)) groups))]"
| "agg_column keys groups (n, c) = []"

text \<open>
  \<open>_aggregate_to_customer\<close>.  Without a \<open>nameOrig\<close> column the frame is returned as it
  is.  Otherwise the rows are grouped by originator (groups in ascending key order), each
  numeric column is aggregated, and the other columns are dropped.  Aggregating with an
  empty dictionary (no numeric column at all) raises in pandas.
\<close>

definition aggregate_to_customer :: "frame \<Rightarrow> error + frame" where
  "aggregate_to_customer features =
     (case ids features of
        None \<Rightarrow> Inr features
      | Some keys \<Rightarrow>
          if numeric_cols (cols features) = [] then Inl ValueError
          else let groups = sort (remdups keys)
               in Inr \<lparr>ids = Some groups,
                       cols = concat (map (agg_column keys groups) (cols features))\<rparr>)"

subsection \<open>Eligible features\<close>

text \<open>
  \<open>Series.std()\<close> is a floating-point computation of the library: the sample standard
  deviation (ddof = 1) of the values that are not NaN, NaN when fewer than two remain.
  Its rounding decides the eligibility test (computed on three equal values 0.1 it comes
  out slightly above 0), so the scorer is modelled for an arbitrary function
  \<open>series_std\<close> in its place.  \<open>exact_std\<close>, the same quantity in exact arithmetic, is
  the instance used in the examples.
\<close>

definition exact_std :: "real option list \<Rightarrow> real option" where
  "exact_std xs = (let ys = dropna xs; n = length ys; m = sum_list ys / real n
                   in if n \<le> 1 then None
                      else Some (sqrt (sum_list (map (\<lambda>y. (y - m)\<^sup>2) ys) / real (n - 1))))"

definition available :: "(real option list \<Rightarrow> real option) \<Rightarrow> frame \<Rightarrow> string \<Rightarrow> bool" where
  "available series_std rs feature =
     (case map_of (cols rs) feature of
        Some (NumCol xs) \<Rightarrow> gt (series_std xs) (Some 0)
      | _ \<Rightarrow> False)"

definition get_available_features ::
  "(real option list \<Rightarrow> real option) \<Rightarrow> frame \<Rightarrow> string list" where
  "get_available_features series_std rs = filter (available series_std rs) risk_features"

subsection \<open>Z-scores\<close>

definition fillna0 :: "real option list \<Rightarrow> real list" where
  "fillna0 xs = map (\<lambda>v. case v of None \<Rightarrow> 0 | Some x \<Rightarrow> x) xs"

text \<open>\<open>scipy.stats.zscore\<close>: population mean and standard deviation (ddof = 0); a
  column without dispersion, all of its values being equal, gives NaN.\<close>

definition zscore :: "real list \<Rightarrow> real option list" where
  "zscore xs = (let n = real (length xs); mn = sum_list xs / n;
                    sd = sqrt (sum_list (map (\<lambda>x. (x - mn)\<^sup>2) xs) / n)
                in map (\<lambda>x. if sd = 0 then None else Some ((x - mn) / sd)) xs)"

fun compute_z_scores :: "string list \<Rightarrow> frame \<Rightarrow> error + frame" where
  "compute_z_scores [] rs = Inr rs"
| "compute_z_scores (feature # rest) rs =
     (case map_of (cols rs) feature of
        None \<Rightarrow> Inl KeyError
      | Some c \<Rightarrow>
          (case numeric_view c of
             Inl e \<Rightarrow> Inl e
           | Inr col_data \<Rightarrow>
               compute_z_scores rest
                 (rs\<lparr>cols := set_col (feature @ ''_zscore'') (NumCol (zscore (fillna0 col_data)))
                                (cols rs)\<rparr>)))"

text \<open>
  The standardisation in the words of the specification: a missing value counts as 0;
  the population mean and the population standard deviation (ddof = 0) are taken over all
  rows of the column; the z-score of row \<open>i\<close> is its value minus the mean, divided by the
  standard deviation.
\<close>

definition spec_filled :: "real option list \<Rightarrow> real list" where
  "spec_filled col = map (\<lambda>v. if v = None then 0 else the v) col"

definition spec_pop_mean :: "real list \<Rightarrow> real" where
  "spec_pop_mean xs = sum_list xs / real (length xs)"

definition spec_pop_std :: "real list \<Rightarrow> real" where
  "spec_pop_std xs = sqrt (sum_list (map (\<lambda>x. (x - spec_pop_mean xs)\<^sup>2) xs) / real (length xs))"

definition spec_zscore :: "real option list \<Rightarrow> nat \<Rightarrow> real" where
  "spec_zscore col i =
     (spec_filled col ! i - spec_pop_mean (spec_filled col)) / spec_pop_std (spec_filled col)"

subsection \<open>Composite score and risk score\<close>

definition endswith :: "string \<Rightarrow> string \<Rightarrow> bool" where
  "endswith s suf = (length suf \<le> length s \<and> drop (length s - length suf) s = suf)"

fun numeric_views :: "column list \<Rightarrow> error + real option list list" where
  "numeric_views [] = Inr []"
| "numeric_views (c # cs) =
     (case numeric_view c of
        Inl e \<Rightarrow> Inl e
      | Inr xs \<Rightarrow> (case numeric_views cs of Inl e \<Rightarrow> Inl e | Inr xss \<Rightarrow> Inr (xs # xss)))"

text \<open>Row \<open>i\<close> of \<open>abs().mean(axis=1)\<close>: the mean of the absolute values in that row that
  are not NaN.\<close>

definition row_abs_mean :: "real option list list \<Rightarrow> nat \<Rightarrow> real option" where
  "row_abs_mean zs i = mean (dropna (map (\<lambda>z. map_option abs (z ! i)) zs))"

definition col_min :: "real option list \<Rightarrow> real option" where
  "col_min xs = (let ys = dropna xs in if ys = [] then None else Some (Min (set ys)))"

definition col_max :: "real option list \<Rightarrow> real option" where
  "col_max xs = (let ys = dropna xs in if ys = [] then None else Some (Max (set ys)))"

definition rescale :: "real option \<Rightarrow> real option \<Rightarrow> real option \<Rightarrow> real option" where
  "rescale min_val max_val c =
     (case (c, min_val, max_val) of
        (Some x, Some lo, Some hi) \<Rightarrow> Some ((x - lo) / (hi - lo) * 100)
      | _ \<Rightarrow> None)"

text \<open>The min-max rescaling of the composite column; without dispersion (or without any
  value) every row gets 50.\<close>

definition minmax_scale :: "real option list \<Rightarrow> real option list" where
  "minmax_scale composite =
     (let min_val = col_min composite;
          max_val = col_max composite
      in if gt max_val min_val then map (rescale min_val max_val) composite
         else replicate (length composite) (Some 50))"

definition compute_final_score :: "frame \<Rightarrow> error + frame" where
  "compute_final_score rs =
     (let z_cols = filter (\<lambda>p. endswith (fst p) ''_zscore'') (cols rs)
      in if z_cols = [] then
           Inr (rs\<lparr>cols := set_col ''risk_score'' (NumCol (replicate (nrows rs) (Some 0)))
                     (set_col ''composite_zscore'' (NumCol (replicate (nrows rs) (Some 0)))
                        (cols rs))\<rparr>)
         else
           (case numeric_views (map snd z_cols) of
              Inl e \<Rightarrow> Inl e
            | Inr zs \<Rightarrow>
                let composite = map (row_abs_mean zs) [0..<nrows rs]
                in Inr (rs\<lparr>cols := set_col ''risk_score'' (NumCol (minmax_scale composite))
                          (set_col ''composite_zscore'' (NumCol composite) (cols rs))\<rparr>)))"

subsection \<open>Risk bands and anomalies\<close>

text \<open>\<open>get_band\<close> walks the band dictionary in insertion order and returns the first band
  whose half-open interval holds the score; \<open>Critical\<close> when none does.\<close>

fun get_band_loop :: "(string \<times> real \<times> real) list \<Rightarrow> real option \<Rightarrow> string" where
  "get_band_loop [] score = ''Critical''"
| "get_band_loop ((band, low, high) # rest) score =
     (if (case score of None \<Rightarrow> False | Some s \<Rightarrow> low \<le> s \<and> s < high) then band
      else get_band_loop rest score)"

definition get_band :: "real option \<Rightarrow> string" where
  "get_band score = get_band_loop risk_bands score"

definition assign_risk_bands :: "frame \<Rightarrow> error + frame" where
  "assign_risk_bands rs =
     (case map_of (cols rs) ''risk_score'' of
        None \<Rightarrow> Inl KeyError
      | Some c \<Rightarrow>
          (case numeric_view c of
             Inl e \<Rightarrow> Inl e
           | Inr scores \<Rightarrow>
               Inr (rs\<lparr>cols := set_col ''risk_band'' (ObjCol (map get_band scores)) (cols rs)\<rparr>)))"

definition flag_anomalies :: "real \<Rightarrow> frame \<Rightarrow> error + frame" where
  "flag_anomalies threshold rs =
     (case map_of (cols rs) ''composite_zscore'' of
        None \<Rightarrow> Inl KeyError
      | Some c \<Rightarrow>
          (case numeric_view c of
             Inl e \<Rightarrow> Inl e
           | Inr composite \<Rightarrow>
               Inr (rs\<lparr>cols := set_col ''is_anomaly''
                         (NumCol (map (\<lambda>v. Some (if gt v (Some threshold) then 1 else 0)) composite))
                         (cols rs)\<rparr>)))"

definition high_risk_count :: "frame \<Rightarrow> nat" where
  "high_risk_count rs =
     (case map_of (cols rs) ''risk_band'' of
        Some (ObjCol bands) \<Rightarrow> length (filter (\<lambda>b. b \<in> {''High'', ''Critical''}) bands)
      | _ \<Rightarrow> 0)"

subsection \<open>compute_risk_scores\<close>

text \<open>
  The scorer keeps the frame it works on in \<open>risk_scores\<close>; an exception in a step is
  caught and reported as a failure, the frame staying as that step found it.  (The loop
  of \<open>_compute_z_scores\<close> cannot raise on the features that passed the eligibility test,
  see \<open>z_scores_never_raise\<close>, so no half-filled frame arises there.)  Frames are passed
  by value: that the scorer, given a table without \<open>nameOrig\<close>, adds its columns to the
  caller's own table is not part of this model.
\<close>

definition compute_risk_scores ::
  "(real option list \<Rightarrow> real option) \<Rightarrow> risk_scorer \<Rightarrow> frame \<Rightarrow>
     (bool \<times> message) \<times> risk_scorer" where
  "compute_risk_scores series_std self features =
     (case aggregate_to_customer features of
        Inl e \<Rightarrow> ((False, Error e), self)
      | Inr rs0 \<Rightarrow>
          let available_features = get_available_features series_std rs0
          in if available_features = [] then ((False, NoFeatures), self\<lparr>risk_scores := Some rs0\<rparr>)
             else
               (case compute_z_scores available_features rs0 of
                  Inl e \<Rightarrow> ((False, Error e), self\<lparr>risk_scores := Some rs0\<rparr>)
                | Inr rs1 \<Rightarrow>
                    (case compute_final_score rs1 of
                       Inl e \<Rightarrow> ((False, Error e), self\<lparr>risk_scores := Some rs1\<rparr>)
                     | Inr rs2 \<Rightarrow>
                         (case assign_risk_bands rs2 of
                            Inl e \<Rightarrow> ((False, Error e), self\<lparr>risk_scores := Some rs2\<rparr>)
                          | Inr rs3 \<Rightarrow>
                              (case flag_anomalies (z_score_threshold self) rs3 of
                                 Inl e \<Rightarrow> ((False, Error e), self\<lparr>risk_scores := Some rs3\<rparr>)
                               | Inr rs4 \<Rightarrow>
                                   ((True, Scored (nrows rs4) (high_risk_count rs4)),
                                    self\<lparr>risk_scores := Some rs4\<rparr>))))))"

section \<open>FeatureBuilder\<close>

text \<open>
  A row of the cleaned transaction table: the required columns, as the loader checks
  them and the cleaner leaves them (no missing value).  A transaction table holds these
  rows in row order, and every further column (the derived features) with its dtype in
  \<open>extra\<close>, in column order.  The index labels of the cleaned table are unique, so an
  assignment of a series aligned on the index gives every row its own value.
\<close>

record txn =
  step :: int
  txn_type :: string
  amount :: real
  nameOrig :: string
  oldbalanceOrg :: real
  newbalanceOrig :: real
  nameDest :: string
  oldbalanceDest :: real
  newbalanceDest :: real
  isFraud :: int
  isFlaggedFraud :: int

record table =
  base :: "txn list"
  extra :: "(string \<times> column) list"

text \<open>
  Tables are objects that the stages share and change in place: a store maps each
  reference to the table it holds, and a component keeps references.
\<close>

type_synonym ref = nat

type_synonym store = "ref \<Rightarrow> table"

record feature_builder =
  features :: "ref option"

definition max_list :: "real list \<Rightarrow> real option" where
  "max_list xs = (if xs = [] then None else Some (Max (set xs)))"

text \<open>Each step assigns its columns one after the other, all computed from the required
  columns of the table, which no assignment changes.\<close>

definition add_transaction_features :: "table \<Rightarrow> table" where
  "add_transaction_features df =
     df\<lparr>extra :=
          set_col ''hour_of_day'' (NumCol (map (\<lambda>r. Some (of_int (step r mod 24))) (base df)))
            (set_col ''is_full_drain''
               (BoolCol (map (\<lambda>r. oldbalanceOrg r > 0 \<and> newbalanceOrig r = 0) (base df)))
               (set_col ''balance_ratio_orig''
                  (NumCol (map (\<lambda>r. Some (if oldbalanceOrg r > 0 then amount r / oldbalanceOrg r else 0))
                     (base df)))
                  (extra df)))\<rparr>"

text \<open>The amounts of the transactions of one originator, in row order.\<close>

definition customer_grp :: "txn list \<Rightarrow> string \<Rightarrow> real list" where
  "customer_grp rows k = group_vals (map nameOrig rows) k (map amount rows)"

definition add_customer_features :: "table \<Rightarrow> table" where
  "add_customer_features df =
     df\<lparr>extra :=
          set_col ''trns_max_customer''
            (NumCol (map (\<lambda>r. max_list (customer_grp (base df) (nameOrig r))) (base df)))
            (set_col ''trns_avg_customer''
               (NumCol (map (\<lambda>r. mean (customer_grp (base df) (nameOrig r))) (base df)))
               (set_col ''trns_total_customer''
                  (NumCol (map (\<lambda>r. Some (sum_list (customer_grp (base df) (nameOrig r)))) (base df)))
                  (set_col ''trns_count_customer''
                     (NumCol (map (\<lambda>r. Some (real (length (customer_grp (base df) (nameOrig r)))))
                        (base df)))
                     (extra df))))\<rparr>"

text \<open>The number of transactions of the same originator on the same day.\<close>

definition daily_count :: "txn list \<Rightarrow> txn \<Rightarrow> nat" where
  "daily_count rows r =
     length (filter (\<lambda>q. nameOrig q = nameOrig r \<and> step q div 24 = step r div 24) rows)"

definition add_velocity_features :: "table \<Rightarrow> table" where
  "add_velocity_features df =
     df\<lparr>extra :=
          set_col ''daily_trns_velocity''
            (NumCol (map (\<lambda>r. Some (real (daily_count (base df) r))) (base df)))
            (set_col ''day'' (NumCol (map (\<lambda>r. Some (of_int (step r div 24))) (base df)))
               (extra df))\<rparr>"

text \<open>\<open>sort_values(['nameOrig', 'step'], inplace=True)\<close>: a stable sort of the row
  positions by the key pair, after which every column is taken in that order.\<close>

fun take_rows :: "nat list \<Rightarrow> column \<Rightarrow> column" where
  "take_rows perm (NumCol xs) = NumCol (map (\<lambda>i. xs ! i) perm)"
| "take_rows perm (BoolCol bs) = BoolCol (map (\<lambda>i. bs ! i) perm)"
| "take_rows perm (ObjCol ss) = ObjCol (map (\<lambda>i. ss ! i) perm)"

definition sort_values :: "table \<Rightarrow> table" where
  "sort_values df =
     (let perm = sort_key (\<lambda>i. (nameOrig (base df ! i), step (base df ! i))) [0..<length (base df)]
      in \<lparr>base = map (\<lambda>i. base df ! i) perm,
          extra = map (\<lambda>p. (fst p, take_rows perm (snd p))) (extra df)\<rparr>)"

text \<open>
  \<open>groupby(key).rolling(w, min_periods=1)\<close>: each group is the sequence of its values in
  row order; the window at position \<open>p\<close> of a group holds the values at positions
  \<open>p - w + 1\<close> to \<open>p\<close> that exist.  A row gets the result at its own position within its
  group.
\<close>

definition window :: "nat \<Rightarrow> 'a list \<Rightarrow> nat \<Rightarrow> 'a list" where
  "window w vs p = drop (Suc p - w) (take (Suc p) vs)"

definition rank :: "'k list \<Rightarrow> nat \<Rightarrow> nat" where
  "rank keys i = length (filter (\<lambda>k. k = keys ! i) (take i keys))"

definition rolling :: "nat \<Rightarrow> (real list \<Rightarrow> real option) \<Rightarrow> txn list \<Rightarrow> real option list" where
  "rolling w f rows =
     map (\<lambda>i. f (window w (customer_grp rows (nameOrig (rows ! i))) (rank (map nameOrig rows) i)))
       [0..<length rows]"

definition rolling_window :: nat where
  "rolling_window = 5"

text \<open>
  The window in the words of the specification: the amounts of the last five transactions
  of the originator of row \<open>i\<close> up to and including row \<open>i\<close>, fewer when the originator
  has fewer by then.
\<close>

definition spec_trailing_window :: "txn list \<Rightarrow> nat \<Rightarrow> real list" where
  "spec_trailing_window rows i =
     (let own = map amount (filter (\<lambda>q. nameOrig q = nameOrig (rows ! i)) (take (Suc i) rows))
      in drop (length own - 5) own)"

definition add_rolling_features :: "table \<Rightarrow> table" where
  "add_rolling_features df0 =
     (let df = sort_values df0
      in df\<lparr>extra :=
             set_col ''rolling_max_amount'' (NumCol (rolling rolling_window max_list (base df)))
               (set_col ''rolling_mean_amount'' (NumCol (rolling rolling_window mean (base df)))
                  (extra df))\<rparr>)"

text \<open>
  \<open>build_features\<close> keeps the reference it is given and every step works on the table
  behind it.  With the required columns present no step raises.
\<close>

definition build_features ::
  "feature_builder \<Rightarrow> ref \<Rightarrow> store \<Rightarrow> (bool \<times> message) \<times> feature_builder \<times> store" where
  "build_features self cleaned_data h =
     (let self1 = self\<lparr>features := Some cleaned_data\<rparr>;
          h1 = h(cleaned_data := add_transaction_features (h cleaned_data));
          h2 = h1(cleaned_data := add_customer_features (h1 cleaned_data));
          h3 = h2(cleaned_data := add_velocity_features (h2 cleaned_data));
          h4 = h3(cleaned_data := add_rolling_features (h3 cleaned_data))
      in ((True, Built (length (base (h4 cleaned_data)))), self1, h4))"

text \<open>The feature table as the data frame the scorer receives: the required columns
  with their dtypes, then the further columns.\<close>

definition as_frame :: "table \<Rightarrow> frame" where
  "as_frame df =
     \<lparr>ids = Some (map nameOrig (base df)),
      cols = [(''step'', NumCol (map (\<lambda>r. Some (of_int (step r))) (base df))),
              (''type'', ObjCol (map txn_type (base df))),
              (''amount'', NumCol (map (\<lambda>r. Some (amount r)) (base df))),
              (''oldbalanceOrg'', NumCol (map (\<lambda>r. Some (oldbalanceOrg r)) (base df))),
              (''newbalanceOrig'', NumCol (map (\<lambda>r. Some (newbalanceOrig r)) (base df))),
              (''nameDest'', ObjCol (map nameDest (base df))),
              (''oldbalanceDest'', NumCol (map (\<lambda>r. Some (oldbalanceDest r)) (base df))),
              (''newbalanceDest'', NumCol (map (\<lambda>r. Some (newbalanceDest r)) (base df))),
              (''isFraud'', NumCol (map (\<lambda>r. Some (of_int (isFraud r))) (base df))),
              (''isFlaggedFraud'', NumCol (map (\<lambda>r. Some (of_int (isFlaggedFraud r))) (base df)))]
             @ extra df\<rparr>"

section \<open>TransactionFlagger\<close>

text \<open>A row of the customer risk table that \<open>get_risk_scores\<close> hands to the flagger.\<close>

record risk_row =
  customer :: string
  risk_score :: "real option"
  risk_band :: string
  is_anomaly :: int

record flag_summary =
  total_transactions :: nat
  flagged_transactions :: nat
  by_risk_band :: "(string \<times> nat) list"
  risk_threshold_used :: real
  anomalies :: int

record transaction_flagger =
  flagged_data :: "ref option"
  risk_threshold :: real
  summary :: "flag_summary option"
  flagged_ok :: bool

text \<open>\<open>dict(zip(keys, values))\<close> followed by a lookup: a later row of the risk table
  overrides an earlier one with the same key.\<close>

definition dict_zip :: "risk_row list \<Rightarrow> (risk_row \<Rightarrow> 'a) \<Rightarrow> string \<Rightarrow> 'a option" where
  "dict_zip rs field = map_of (rev (map (\<lambda>r. (customer r, field r)) rs))"

definition count_band :: "string \<Rightarrow> string list \<Rightarrow> nat" where
  "count_band b bands = length (filter (\<lambda>x. x = b) bands)"

text \<open>
  \<open>flag_transactions\<close> keeps the reference to the transaction table and adds the four
  columns to the table behind it, one after the other: \<open>risk_score\<close>, \<open>risk_band\<close>,
  \<open>is_anomaly\<close>, \<open>is_flagged\<close>.  A key that the dictionary does not hold maps to NaN,
  which \<open>fillna\<close> replaces.  The summary entry \<open>flagged_percentage\<close>, a floating-point
  number rounded to two decimals for display, is not part of the model.
\<close>

definition flag_transactions ::
  "transaction_flagger \<Rightarrow> ref \<Rightarrow> risk_row list \<Rightarrow> store \<Rightarrow>
     (bool \<times> message) \<times> transaction_flagger \<times> store" where
  "flag_transactions self transactions risk_rows h =
     (let df = h transactions;
          names = map nameOrig (base df);
          scores = map (\<lambda>k. case dict_zip risk_rows risk_score k of
                               Some (Some x) \<Rightarrow> x | _ \<Rightarrow> 0) names;
          bands = map (\<lambda>k. case dict_zip risk_rows risk_band k of
                              Some b \<Rightarrow> b | None \<Rightarrow> ''Low'') names;
          anoms = map (\<lambda>k. case dict_zip risk_rows is_anomaly k of
                              Some a \<Rightarrow> a | None \<Rightarrow> 0) names;
          flags = map (\<lambda>s. s \<ge> risk_threshold self) scores;
          df' = df\<lparr>extra :=
                  set_col ''is_flagged'' (BoolCol flags)
                    (set_col ''is_anomaly'' (NumCol (map (\<lambda>a. Some (of_int a)) anoms))
                       (set_col ''risk_band'' (ObjCol bands)
                          (set_col ''risk_score'' (NumCol (map Some scores)) (extra df))))\<rparr>;
          total = length (base df');
          flagged_count = length (filter (\<lambda>b. b) flags);
          s = \<lparr>total_transactions = total,
               flagged_transactions = flagged_count,
               by_risk_band = [(''Critical'', count_band ''Critical'' bands),
                               (''High'', count_band ''High'' bands),
                               (''Medium'', count_band ''Medium'' bands)],
               risk_threshold_used = risk_threshold self,
               anomalies = sum_list anoms\<rparr>
      in ((True, Flagged flagged_count total),
          self\<lparr>flagged_data := Some transactions, summary := Some s, flagged_ok := True\<rparr>,
          h(transactions := df')))"

section \<open>Example data\<close>

definition scorer0 :: risk_scorer where
  "scorer0 = \<lparr>risk_scores = None, z_score_threshold = 2\<rparr>"

text \<open>Four customers with one transaction each, and two customers with one each.\<close>

definition population4 :: frame where
  "population4 = \<lparr>ids = Some [''A'', ''B'', ''C'', ''D''],
                   cols = [(''amount'', NumCol [Some 8, Some 2, Some 2, Some 0])]\<rparr>"

definition population2 :: frame where
  "population2 = \<lparr>ids = Some [''A'', ''B''], cols = [(''amount'', NumCol [Some 1, Some 3])]\<rparr>"

definition flagger0 :: transaction_flagger where
  "flagger0 = \<lparr>flagged_data = None, risk_threshold = 50, summary = None, flagged_ok = False\<rparr>"

definition txn0 :: txn where
  "txn0 = \<lparr>step = 1, txn_type = ''TRANSFER'', amount = 100, nameOrig = ''A'', oldbalanceOrg = 100,
           newbalanceOrig = 0, nameDest = ''M'', oldbalanceDest = 0, newbalanceDest = 100,
           isFraud = 0, isFlaggedFraud = 0\<rparr>"

definition empty_store :: store where
  "empty_store = (\<lambda>r. \<lparr>base = [], extra = []\<rparr>)"

text \<open>One transaction of customer A and one of customer Z; a risk table that knows A only,
  in the Medium band.\<close>

definition two_rows :: table where
  "two_rows = \<lparr>base = [txn0, txn0\<lparr>nameOrig := ''Z''\<rparr>], extra = []\<rparr>"

definition medium_risk :: "risk_row list" where
  "medium_risk = [\<lparr>customer = ''A'', risk_score = Some 30, risk_band = ''Medium'', is_anomaly = 0\<rparr>]"

definition builder0 :: feature_builder where
  "builder0 = \<lparr>features = None\<rparr>"

definition c1_txn :: "int \<Rightarrow> real \<Rightarrow> txn" where
  "c1_txn s a = \<lparr>step = s, txn_type = ''PAYMENT'', amount = a, nameOrig = ''C1'',
                 oldbalanceOrg = 1000, newbalanceOrig = 1000 - a, nameDest = ''M1'',
                 oldbalanceDest = 0, newbalanceDest = a, isFraud = 0, isFlaggedFraud = 0\<rparr>"

text \<open>Originator C1 with amounts 100 to 600 at steps 1 to 6, all on day 0.\<close>

definition scenario :: table where
  "scenario = \<lparr>base = [c1_txn 1 100, c1_txn 2 200, c1_txn 3 300, c1_txn 4 400, c1_txn 5 500,
                       c1_txn 6 600],
               extra = []\<rparr>"

definition scenario_features :: table where
  "scenario_features = \<lparr>base = base scenario, extra = [
    (''balance_ratio_orig'',
       NumCol [Some (1/10), Some (2/10), Some (3/10), Some (4/10), Some (5/10), Some (6/10)]),
    (''is_full_drain'', BoolCol [False, False, False, False, False, False]),
    (''hour_of_day'', NumCol [Some 1, Some 2, Some 3, Some 4, Some 5, Some 6]),
    (''trns_count_customer'', NumCol [Some 6, Some 6, Some 6, Some 6, Some 6, Some 6]),
    (''trns_total_customer'',
       NumCol [Some 2100, Some 2100, Some 2100, Some 2100, Some 2100, Some 2100]),
    (''trns_avg_customer'', NumCol [Some 350, Some 350, Some 350, Some 350, Some 350, Some 350]),
    (''trns_max_customer'', NumCol [Some 600, Some 600, Some 600, Some 600, Some 600, Some 600]),
    (''day'', NumCol [Some 0, Some 0, Some 0, Some 0, Some 0, Some 0]),
    (''daily_trns_velocity'', NumCol [Some 6, Some 6, Some 6, Some 6, Some 6, Some 6]),
    (''rolling_mean_amount'',
       NumCol [Some 100, Some 150, Some 200, Some 250, Some 300, Some 400]),
    (''rolling_max_amount'',
       NumCol [Some 100, Some 200, Some 300, Some 400, Some 500, Some 600])]\<rparr>"

text \<open>Two transactions of C1, the later one first.\<close>

definition unsorted :: table where
  "unsorted = \<lparr>base = [c1_txn 2 100, c1_txn 1 600], extra = []\<rparr>"

definition unsorted_features :: table where
  "unsorted_features = \<lparr>base = [c1_txn 1 600, c1_txn 2 100], extra = [
    (''balance_ratio_orig'', NumCol [Some (6/10), Some (1/10)]),
    (''is_full_drain'', BoolCol [False, False]),
    (''hour_of_day'', NumCol [Some 1, Some 2]),
    (''trns_count_customer'', NumCol [Some 2, Some 2]),
    (''trns_total_customer'', NumCol [Some 700, Some 700]),
    (''trns_avg_customer'', NumCol [Some 350, Some 350]),
    (''trns_max_customer'', NumCol [Some 600, Some 600]),
    (''day'', NumCol [Some 0, Some 0]),
    (''daily_trns_velocity'', NumCol [Some 2, Some 2]),
    (''rolling_mean_amount'', NumCol [Some 600, Some 350]),
    (''rolling_max_amount'', NumCol [Some 600, Some 600])]\<rparr>"

text \<open>Customer A empties the account twice, customer Z keeps half of it.\<close>

definition drained :: table where
  "drained = \<lparr>base = [txn0, txn0\<lparr>step := 2\<rparr>, txn0\<lparr>nameOrig := ''Z'', newbalanceOrig := 50\<rparr>],
              extra = []\<rparr>"

definition drained_features :: table where
  "drained_features = \<lparr>base = base drained, extra = [
    (''balance_ratio_orig'', NumCol [Some 1, Some 1, Some 1]),
    (''is_full_drain'', BoolCol [True, True, False]),
    (''hour_of_day'', NumCol [Some 1, Some 2, Some 1]),
    (''trns_count_customer'', NumCol [Some 2, Some 2, Some 1]),
    (''trns_total_customer'', NumCol [Some 200, Some 200, Some 100]),
    (''trns_avg_customer'', NumCol [Some 100, Some 100, Some 100]),
    (''trns_max_customer'', NumCol [Some 100, Some 100, Some 100]),
    (''day'', NumCol [Some 0, Some 0, Some 0]),
    (''daily_trns_velocity'', NumCol [Some 2, Some 2, Some 1]),
    (''rolling_mean_amount'', NumCol [Some 100, Some 100, Some 100]),
    (''rolling_max_amount'', NumCol [Some 100, Some 100, Some 100])]\<rparr>"

text \<open>Two rows without an originator-id column; two customers with the same amount; one
  customer with two transactions.\<close>

definition no_id_population :: frame where
  "no_id_population = \<lparr>ids = None, cols = [(''amount'', NumCol [Some 1, Some 3])]\<rparr>"

definition flat_population :: frame where
  "flat_population = \<lparr>ids = Some [''A'', ''B''], cols = [(''amount'', NumCol [Some 5, Some 5])]\<rparr>"

definition single_customer :: frame where
  "single_customer = \<lparr>ids = Some [''A'', ''A''], cols = [(''amount'', NumCol [Some 1, Some 3])]\<rparr>"

text \<open>Four customers, one of them without an amount, and a second feature.\<close>

definition population_nan :: frame where
  "population_nan = \<lparr>ids = Some [''A'', ''B'', ''C'', ''D''],
                      cols = [(''amount'', NumCol [Some 8, Some 2, Some 2, None]),
                              (''trns_total_customer'', NumCol [Some 1, Some 3, Some 1, Some 3])]\<rparr>"

text \<open>
  Three customers with the same amount, and a standard deviation that comes out with a
  rounding error above the exact one, as the library's does on this column.
\<close>

definition constant_population :: frame where
  "constant_population = \<lparr>ids = Some [''A'', ''B'', ''C''],
                           cols = [(''amount'', NumCol [Some (1/10), Some (1/10), Some (1/10)])]\<rparr>"

definition rounded_std :: "real option list \<Rightarrow> real option" where
  "rounded_std xs = map_option (\<lambda>s. s + 1 / 10 ^ 17) (exact_std xs)"

section \<open>Auxiliary predicates\<close>

text \<open>Every column of the frame is numeric, as in an aggregate table.\<close>

definition all_numeric :: "frame \<Rightarrow> bool" where
  "all_numeric rs = (\<forall>p\<in>set (cols rs). is_numeric (snd p))"

text \<open>The values of a numeric column of a frame, by name.\<close>

definition num_col :: "frame \<Rightarrow> string \<Rightarrow> real option list" where
  "num_col rs name = (case map_of (cols rs) name of Some (NumCol xs) \<Rightarrow> xs | _ \<Rightarrow> [])"

text \<open>The z-score columns that \<open>_compute_z_scores\<close> adds for a list of features.\<close>

definition zcols :: "frame \<Rightarrow> string list \<Rightarrow> (string \<times> column) list" where
  "zcols rs fs = map (\<lambda>f. (f @ ''_zscore'', NumCol (zscore (fillna0 (num_col rs f))))) fs"

section \<open>Properties of the frame operations\<close>

lemma map_of_set_col: "map_of (set_col n c cs) = (map_of cs)(n \<mapsto> c)"
  by (induction cs) (auto simp: fun_eq_iff)

lemma names_set_col: "fst ` set (set_col n c cs) = insert n (fst ` set cs)"
  by (simp add: dom_map_of_conv_image_fst [symmetric] map_of_set_col)

lemma endswith_append [simp]: "endswith (f @ suf) suf"
  by (simp add: endswith_def)

lemma set_dropna: "set (dropna xs) = {x. Some x \<in> set xs}"
  by (induction xs rule: dropna.induct) auto

lemmas scorer_defs = compute_risk_scores_def aggregate_to_customer_def numeric_cols_def
  is_numeric_def agg_dict_def sum_columns_def group_vals_def agg_mean_def agg_sum_def mean_def
  get_available_features_def available_def risk_features_def exact_std_def Let_def fillna0_def
  zscore_def compute_final_score_def endswith_def row_abs_mean_def nrows_def minmax_scale_def
  col_min_def col_max_def rescale_def assign_risk_bands_def get_band_def risk_bands_def
  flag_anomalies_def high_risk_count_def

section \<open>The steps of a successful scoring run\<close>

lemma compute_risk_scores_success:
  assumes "compute_risk_scores series_std self fs = ((True, msg), self')"
  shows "\<exists>rs0 rs1 rs2 rs3 rs4. aggregate_to_customer fs = Inr rs0 \<and>
           get_available_features series_std rs0 \<noteq> [] \<and>
           compute_z_scores (get_available_features series_std rs0) rs0 = Inr rs1 \<and>
           compute_final_score rs1 = Inr rs2 \<and> assign_risk_bands rs2 = Inr rs3 \<and>
           flag_anomalies (z_score_threshold self) rs3 = Inr rs4 \<and>
           self' = self\<lparr>risk_scores := Some rs4\<rparr> \<and>
           msg = Scored (nrows rs4) (high_risk_count rs4)"
  using assms
  by (auto simp: compute_risk_scores_def Let_def split: sum.splits if_splits)

lemma compute_z_scores_names:
  "compute_z_scores fs rs = Inr rs' \<Longrightarrow>
     fst ` set (cols rs') = fst ` set (cols rs) \<union> (\<lambda>f. f @ ''_zscore'') ` set fs"
proof (induction fs arbitrary: rs)
  case Nil
  then show ?case by simp
next
  case (Cons f fs)
  then show ?case
    by (auto simp: names_set_col split: option.splits sum.splits)
qed

lemma compute_final_score_cols:
  assumes "compute_final_score rs = Inr rs2" and "n \<in> fst ` set (cols rs)"
    and "endswith n ''_zscore''"
  shows "\<exists>cz. map_of (cols rs2) ''composite_zscore'' = Some (NumCol cz) \<and>
           map_of (cols rs2) ''risk_score'' = Some (NumCol (minmax_scale cz))"
proof -
  from assms(2,3) have ne: "filter (\<lambda>p. endswith (fst p) ''_zscore'') (cols rs) \<noteq> []"
    by (auto simp: filter_empty_conv)
  show ?thesis
    using assms(1) ne
    by (auto simp: compute_final_score_def Let_def map_of_set_col split: sum.splits if_splits)
qed

lemma z_scores_raise_free:
  "\<forall>f\<in>set fs. (\<exists>xs. map_of (cols rs) f = Some (NumCol xs)) \<and> \<not> endswith f ''_zscore'' \<Longrightarrow>
     \<exists>rs'. compute_z_scores fs rs = Inr rs'"
proof (induction fs arbitrary: rs)
  case Nil
  then show ?case by simp
next
  case (Cons f fs)
  from Cons.prems obtain xs where xs: "map_of (cols rs) f = Some (NumCol xs)" by auto
  let ?rs = "rs\<lparr>cols := set_col (f @ ''_zscore'') (NumCol (zscore (fillna0 xs))) (cols rs)\<rparr>"
  have "\<forall>g\<in>set fs. (\<exists>ys. map_of (cols ?rs) g = Some (NumCol ys)) \<and> \<not> endswith g ''_zscore''"
  proof
    fix g assume g: "g \<in> set fs"
    with Cons.prems have e: "\<not> endswith g ''_zscore''"
      and "\<exists>ys. map_of (cols rs) g = Some (NumCol ys)" by auto
    moreover from e have "g \<noteq> f @ ''_zscore''" using endswith_append by metis
    ultimately show "(\<exists>ys. map_of (cols ?rs) g = Some (NumCol ys)) \<and> \<not> endswith g ''_zscore''"
      by (simp add: map_of_set_col)
  qed
  from Cons.IH [OF this] show ?case using xs by simp
qed

lemma z_scores_never_raise:
  "\<exists>rs'. compute_z_scores (get_available_features series_std rs) rs = Inr rs'"
proof (rule z_scores_raise_free, rule ballI)
  fix f assume "f \<in> set (get_available_features series_std rs)"
  then have r: "f \<in> set risk_features" and a: "available series_std rs f"
    by (simp_all add: get_available_features_def)
  from a have "\<exists>xs. map_of (cols rs) f = Some (NumCol xs)"
    by (auto simp: available_def split: option.splits column.splits)
  moreover from r have "\<not> endswith f ''_zscore''"
    by (auto simp: risk_features_def endswith_def)
  ultimately show "(\<exists>xs. map_of (cols rs) f = Some (NumCol xs)) \<and> \<not> endswith f ''_zscore''" ..
qed

lemma assign_risk_bands_cols:
  "assign_risk_bands rs = Inr rs' \<Longrightarrow> n \<noteq> ''risk_band'' \<Longrightarrow>
     map_of (cols rs') n = map_of (cols rs) n"
  by (auto simp: assign_risk_bands_def map_of_set_col split: option.splits sum.splits)

lemma flag_anomalies_cols:
  "flag_anomalies t rs = Inr rs' \<Longrightarrow> n \<noteq> ''is_anomaly'' \<Longrightarrow>
     map_of (cols rs') n = map_of (cols rs) n"
  by (auto simp: flag_anomalies_def map_of_set_col split: option.splits sum.splits)

section \<open>Min-max rescaling\<close>

lemma minmax_spread:
  assumes "a \<in> set (dropna cz)" "b \<in> set (dropna cz)" "a \<noteq> b"
  shows "gt (col_max cz) (col_min cz)"
proof -
  let ?S = "set (dropna cz)"
  have ne: "dropna cz \<noteq> []" using assms(1) by auto
  have "Min ?S \<le> min a b" using assms(1,2) by (simp add: min_def)
  moreover have "max a b \<le> Max ?S" using assms(1,2) by (simp add: max_def)
  moreover have "min a b < max a b" using assms(3) by (simp add: min_def max_def)
  ultimately have "Min ?S < Max ?S" by linarith
  then show ?thesis using ne by (simp add: col_min_def col_max_def)
qed

lemma minmax_rescaled:
  assumes "a \<in> set (dropna cz)" "b \<in> set (dropna cz)" "a \<noteq> b"
    and "i < length cz" "cz ! i = Some c"
  shows "minmax_scale cz ! i =
           Some ((c - Min (set (dropna cz))) / (Max (set (dropna cz)) - Min (set (dropna cz))) * 100)"
proof -
  have ne: "dropna cz \<noteq> []" using assms(1) by auto
  show ?thesis
    using minmax_spread [OF assms(1,2,3)] assms(4,5) ne
    by (simp add: minmax_scale_def Let_def rescale_def col_min_def col_max_def)
qed

lemma minmax_flat:
  assumes "\<forall>a\<in>set cz. \<forall>b\<in>set cz. a = b"
  shows "minmax_scale cz = replicate (length cz) (Some 50)"
proof -
  have "\<not> gt (col_max cz) (col_min cz)"
  proof (cases "dropna cz = []")
    case True
    then show ?thesis by (simp add: col_min_def col_max_def)
  next
    case False
    then obtain x where x: "x \<in> set (dropna cz)" by (cases "dropna cz") auto
    have "set (dropna cz) = {x}"
      using x assms by (auto simp: set_dropna)
    then show ?thesis using False by (simp add: col_min_def col_max_def)
  qed
  then show ?thesis by (simp add: minmax_scale_def Let_def)
qed

text \<open>
  Claim C1.  After a successful \<open>compute_risk_scores\<close>, the \<open>risk_score\<close> column is the
  min-max rescaling of the \<open>composite_zscore\<close> column: when the composite takes at least two
  distinct values, a customer with composite \<open>c\<close> gets \<open>(c - lo) / (hi - lo) * 100\<close>, hence 0 at
  the minimum \<open>lo\<close> and 100 at the maximum \<open>hi\<close>; when all customers have the same composite,
  every risk score is 50.
\<close>

theorem risk_score_minmax:
  assumes "compute_risk_scores series_std self fs = ((True, msg), self')"
  shows "\<exists>rs cz risk lo hi. risk_scores self' = Some rs \<and>
      map_of (cols rs) ''composite_zscore'' = Some (NumCol cz) \<and>
      map_of (cols rs) ''risk_score'' = Some (NumCol risk) \<and> length risk = length cz \<and>
      lo = Min (set (dropna cz)) \<and> hi = Max (set (dropna cz)) \<and>
      ((\<exists>a\<in>set (dropna cz). \<exists>b\<in>set (dropna cz). a \<noteq> b) \<longrightarrow>
         (\<forall>i<length cz. \<forall>c. cz ! i = Some c \<longrightarrow>
            risk ! i = Some ((c - lo) / (hi - lo) * 100) \<and>
            (c = lo \<longrightarrow> risk ! i = Some 0) \<and> (c = hi \<longrightarrow> risk ! i = Some 100))) \<and>
      ((\<forall>a\<in>set cz. \<forall>b\<in>set cz. a = b) \<longrightarrow> (\<forall>i<length risk. risk ! i = Some 50))"
proof -
  from compute_risk_scores_success [OF assms]
  obtain rs0 rs1 rs2 rs3 rs4 where
    av: "get_available_features series_std rs0 \<noteq> []" and
    z: "compute_z_scores (get_available_features series_std rs0) rs0 = Inr rs1" and
    f: "compute_final_score rs1 = Inr rs2" and
    b: "assign_risk_bands rs2 = Inr rs3" and
    a: "flag_anomalies (z_score_threshold self) rs3 = Inr rs4" and
    s: "self' = self\<lparr>risk_scores := Some rs4\<rparr>"
    by blast
  from av obtain ft where ft: "ft \<in> set (get_available_features series_std rs0)"
    by (cases "get_available_features series_std rs0") auto
  then have "ft @ ''_zscore'' \<in> fst ` set (cols rs1)"
    using compute_z_scores_names [OF z] by blast
  from compute_final_score_cols [OF f this endswith_append]
  obtain cz where c2: "map_of (cols rs2) ''composite_zscore'' = Some (NumCol cz)"
    and r2: "map_of (cols rs2) ''risk_score'' = Some (NumCol (minmax_scale cz))"
    by blast
  let ?lo = "Min (set (dropna cz))" and ?hi = "Max (set (dropna cz))"
  have c4: "map_of (cols rs4) ''composite_zscore'' = Some (NumCol cz)"
    using c2 assign_risk_bands_cols [OF b, of "''composite_zscore''"]
      flag_anomalies_cols [OF a, of "''composite_zscore''"] by simp
  have r4: "map_of (cols rs4) ''risk_score'' = Some (NumCol (minmax_scale cz))"
    using r2 assign_risk_bands_cols [OF b, of "''risk_score''"]
      flag_anomalies_cols [OF a, of "''risk_score''"] by simp
  have len: "length (minmax_scale cz) = length cz"
    by (simp add: minmax_scale_def Let_def)
  have spread: "(\<exists>a\<in>set (dropna cz). \<exists>b\<in>set (dropna cz). a \<noteq> b) \<longrightarrow>
         (\<forall>i<length cz. \<forall>c. cz ! i = Some c \<longrightarrow>
            minmax_scale cz ! i = Some ((c - ?lo) / (?hi - ?lo) * 100) \<and>
            (c = ?lo \<longrightarrow> minmax_scale cz ! i = Some 0) \<and>
            (c = ?hi \<longrightarrow> minmax_scale cz ! i = Some 100))"
  proof (intro impI allI)
    fix i c
    assume ex: "\<exists>a\<in>set (dropna cz). \<exists>b\<in>set (dropna cz). a \<noteq> b"
      and i: "i < length cz" and c: "cz ! i = Some c"
    from ex obtain a b where ab: "a \<in> set (dropna cz)" "b \<in> set (dropna cz)" "a \<noteq> b"
      by blast
    have lt: "?lo < ?hi"
      using minmax_spread [OF ab] ab(1)
      by (auto simp: col_min_def col_max_def Let_def split: if_splits)
    have eq: "minmax_scale cz ! i = Some ((c - ?lo) / (?hi - ?lo) * 100)"
      by (rule minmax_rescaled [OF ab i c])
    show "minmax_scale cz ! i = Some ((c - ?lo) / (?hi - ?lo) * 100) \<and>
            (c = ?lo \<longrightarrow> minmax_scale cz ! i = Some 0) \<and>
            (c = ?hi \<longrightarrow> minmax_scale cz ! i = Some 100)"
    proof (intro conjI impI)
      show "minmax_scale cz ! i = Some ((c - ?lo) / (?hi - ?lo) * 100)"
        by (rule eq)
    next
      assume "c = ?lo"
      then show "minmax_scale cz ! i = Some 0" using eq by simp
    next
      assume "c = ?hi"
      moreover have "?hi - ?lo \<noteq> 0" using lt by simp
      ultimately show "minmax_scale cz ! i = Some 100" using eq by simp
    qed
  qed
  have flat: "(\<forall>a\<in>set cz. \<forall>b\<in>set cz. a = b) \<longrightarrow>
                (\<forall>i<length (minmax_scale cz). minmax_scale cz ! i = Some 50)"
    using minmax_flat [of cz] by simp
  have st: "risk_scores self' = Some rs4"
    using s by simp
  show ?thesis
    apply (rule exI [of _ rs4], rule exI [of _ cz], rule exI [of _ "minmax_scale cz"])
    apply (rule exI [of _ "?lo"], rule exI [of _ "?hi"])
    apply (intro conjI refl)
    apply (fact st c4 r4 len spread flat)+
    done
qed

theorem risk_score_minmax_witness:
  "compute_risk_scores exact_std scorer0 population4 =
     ((True, Scored 4 2),
      scorer0\<lparr>risk_scores := Some \<lparr>ids = Some [''A'', ''B'', ''C'', ''D''],
        cols = [(''amount'', NumCol [Some 8, Some 2, Some 2, Some 0]),
                (''amount_zscore'', NumCol [Some (5/3), Some (-1/3), Some (-1/3), Some (-1)]),
                (''composite_zscore'', NumCol [Some (5/3), Some (1/3), Some (1/3), Some 1]),
                (''risk_score'', NumCol [Some 100, Some 0, Some 0, Some 50]),
                (''risk_band'', ObjCol [''Critical'', ''Low'', ''Low'', ''High'']),
                (''is_anomaly'', NumCol [Some 0, Some 0, Some 0, Some 0])]\<rparr>\<rparr>)
   \<and> compute_risk_scores exact_std scorer0 population2 =
     ((True, Scored 2 2),
      scorer0\<lparr>risk_scores := Some \<lparr>ids = Some [''A'', ''B''],
        cols = [(''amount'', NumCol [Some 1, Some 3]),
                (''amount_zscore'', NumCol [Some (-1), Some 1]),
                (''composite_zscore'', NumCol [Some 1, Some 1]),
                (''risk_score'', NumCol [Some 50, Some 50]),
                (''risk_band'', ObjCol [''High'', ''High'']),
                (''is_anomaly'', NumCol [Some 0, Some 0])]\<rparr>\<rparr>)"
proof -
  have e4: "compute_risk_scores exact_std scorer0 population4 =
     ((True, Scored 4 2),
      scorer0\<lparr>risk_scores := Some \<lparr>ids = Some [''A'', ''B'', ''C'', ''D''],
        cols = [(''amount'', NumCol [Some 8, Some 2, Some 2, Some 0]),
                (''amount_zscore'', NumCol [Some (5/3), Some (-1/3), Some (-1/3), Some (-1)]),
                (''composite_zscore'', NumCol [Some (5/3), Some (1/3), Some (1/3), Some 1]),
                (''risk_score'', NumCol [Some 100, Some 0, Some 0, Some 50]),
                (''risk_band'', ObjCol [''Critical'', ''Low'', ''Low'', ''High'']),
                (''is_anomaly'', NumCol [Some 0, Some 0, Some 0, Some 0])]\<rparr>\<rparr>)"
    by (simp add: population4_def scorer0_def scorer_defs)
  have e2: "compute_risk_scores exact_std scorer0 population2 =
     ((True, Scored 2 2),
      scorer0\<lparr>risk_scores := Some \<lparr>ids = Some [''A'', ''B''],
        cols = [(''amount'', NumCol [Some 1, Some 3]),
                (''amount_zscore'', NumCol [Some (-1), Some 1]),
                (''composite_zscore'', NumCol [Some 1, Some 1]),
                (''risk_score'', NumCol [Some 50, Some 50]),
                (''risk_band'', ObjCol [''High'', ''High'']),
                (''is_anomaly'', NumCol [Some 0, Some 0])]\<rparr>\<rparr>)"
    by (simp add: population2_def scorer0_def scorer_defs)
  from risk_score_minmax [OF e4] risk_score_minmax [OF e2] e4 e2
  show ?thesis by simp
qed


section \<open>Risk bands\<close>

text \<open>
  Claim C5.  The band of a customer is a function of the risk score alone:
  \<open>_assign_risk_bands\<close> applies \<open>get_band\<close> to every entry of the \<open>risk_score\<close> column, and
  \<open>get_band\<close> sends a score in [0,25) to Low, in [25,50) to Medium, in [50,75) to High, in
  [75,100) to Critical, and every score of 100 or more to Critical.
\<close>

theorem risk_band_partition:
  assumes "map_of (cols rs) ''risk_score'' = Some (NumCol scores)"
  shows "\<exists>rs'. assign_risk_bands rs = Inr rs' \<and>
           map_of (cols rs') ''risk_band'' = Some (ObjCol (map get_band scores)) \<and>
           (\<forall>s. (0 \<le> s \<and> s < 25 \<longrightarrow> get_band (Some s) = ''Low'') \<and>
                (25 \<le> s \<and> s < 50 \<longrightarrow> get_band (Some s) = ''Medium'') \<and>
                (50 \<le> s \<and> s < 75 \<longrightarrow> get_band (Some s) = ''High'') \<and>
                (75 \<le> s \<and> s < 100 \<longrightarrow> get_band (Some s) = ''Critical'') \<and>
                (100 \<le> s \<longrightarrow> get_band (Some s) = ''Critical''))"
  using assms
  by (simp add: assign_risk_bands_def map_of_set_col get_band_def risk_bands_def)

theorem risk_band_partition_witness:
  "assign_risk_bands
     \<lparr>ids = None, cols = [(''risk_score'', NumCol [Some 0, Some 30, Some 50, Some 80, Some 100])]\<rparr>
     = Inr \<lparr>ids = None,
            cols = [(''risk_score'', NumCol [Some 0, Some 30, Some 50, Some 80, Some 100]),
                    (''risk_band'', ObjCol [''Low'', ''Medium'', ''High'', ''Critical'', ''Critical''])]\<rparr>
   \<and> get_band (Some 10) = ''Low'' \<and> get_band (Some 25) = ''Medium'' \<and> get_band (Some 74) = ''High''
   \<and> get_band (Some 75) = ''Critical'' \<and> get_band (Some 100) = ''Critical''"
  using risk_band_partition
    [of "\<lparr>ids = None, cols = [(''risk_score'', NumCol [Some 0, Some 30, Some 50, Some 80, Some 100])]\<rparr>"
        "[Some 0, Some 30, Some 50, Some 80, Some 100]"]
  by (simp add: assign_risk_bands_def get_band_def risk_bands_def)

section \<open>Flagging\<close>

lemma dict_zip_miss: "k \<notin> customer ` set rs \<Longrightarrow> dict_zip rs field k = None"
  by (force simp: dict_zip_def map_of_eq_None_iff)

lemma dict_zip_hit:
  "distinct (map customer rs) \<Longrightarrow> r \<in> set rs \<Longrightarrow> dict_zip rs field (customer r) = Some (field r)"
  unfolding dict_zip_def
  by (rule map_of_is_SomeI) (auto simp: distinct_rev rev_map [symmetric] comp_def)

lemma flag_example:
  "flag_transactions flagger0 0 medium_risk (empty_store(0 := two_rows)) =
   ((True, Flagged 0 2),
    \<lparr>flagged_data = Some 0, risk_threshold = 50,
      summary = Some \<lparr>total_transactions = 2, flagged_transactions = 0,
                      by_risk_band = [(''Critical'', 0), (''High'', 0), (''Medium'', 1)],
                      risk_threshold_used = 50, anomalies = 0\<rparr>,
      flagged_ok = True\<rparr>,
    empty_store(0 := \<lparr>base = base two_rows,
       extra = [(''risk_score'', NumCol [Some 30, Some 0]), (''risk_band'', ObjCol [''Medium'', ''Low'']),
                (''is_anomaly'', NumCol [Some 0, Some 0]), (''is_flagged'', BoolCol [False, False])]\<rparr>))"
  by (simp add: flag_transactions_def Let_def flagger0_def medium_risk_def two_rows_def txn0_def
      dict_zip_def count_band_def)

text \<open>
  Claim C6.  \<open>flag_transactions\<close> succeeds whatever keys are missing.  A row whose
  originator is not in the risk table gets risk score 0, band Low, anomaly 0 and, with the
  default threshold 50, is not flagged.  A row whose originator is in the risk table (with
  unique keys) gets exactly the values of that customer's entry, so a miss on one row does
  not touch the others; the rows themselves are not changed.
\<close>

theorem flag_missing_key_defaults:
  assumes "flag_transactions self t rrs h = (out, self', h')"
  shows "fst out = True \<and>
    (\<exists>scores bands anoms flags.
       map_of (extra (h' t)) ''risk_score'' = Some (NumCol scores) \<and>
       map_of (extra (h' t)) ''risk_band'' = Some (ObjCol bands) \<and>
       map_of (extra (h' t)) ''is_anomaly'' = Some (NumCol anoms) \<and>
       map_of (extra (h' t)) ''is_flagged'' = Some (BoolCol flags) \<and>
       base (h' t) = base (h t) \<and>
       (\<forall>i<length (base (h t)).
          (nameOrig (base (h t) ! i) \<notin> customer ` set rrs \<longrightarrow>
             scores ! i = Some 0 \<and> bands ! i = ''Low'' \<and> anoms ! i = Some 0 \<and>
             (risk_threshold self = 50 \<longrightarrow> flags ! i = False)) \<and>
          (\<forall>r\<in>set rrs. distinct (map customer rrs) \<and> customer r = nameOrig (base (h t) ! i) \<longrightarrow>
             scores ! i = Some (case risk_score r of Some x \<Rightarrow> x | None \<Rightarrow> 0) \<and>
             bands ! i = risk_band r \<and> anoms ! i = Some (of_int (is_anomaly r)) \<and>
             flags ! i = (risk_threshold self \<le> (case risk_score r of Some x \<Rightarrow> x | None \<Rightarrow> 0)))))"
proof -
  let ?names = "map nameOrig (base (h t))"
  let ?scores = "map (\<lambda>k. case dict_zip rrs risk_score k of Some (Some x) \<Rightarrow> x | _ \<Rightarrow> 0) ?names"
  let ?bands = "map (\<lambda>k. case dict_zip rrs risk_band k of Some b \<Rightarrow> b | None \<Rightarrow> ''Low'') ?names"
  let ?anoms = "map (\<lambda>k. case dict_zip rrs is_anomaly k of Some a \<Rightarrow> a | None \<Rightarrow> 0) ?names"
  let ?flags = "map (\<lambda>s. s \<ge> risk_threshold self) ?scores"
  have ok: "fst out = True"
    using assms by (auto simp: flag_transactions_def Let_def)
  have "h' = snd (snd (flag_transactions self t rrs h))"
    using assms by simp
  then have h': "h' = h(t := (h t)\<lparr>extra := set_col ''is_flagged'' (BoolCol ?flags)
                 (set_col ''is_anomaly'' (NumCol (map (\<lambda>a. Some (of_int a)) ?anoms))
                   (set_col ''risk_band'' (ObjCol ?bands)
                     (set_col ''risk_score'' (NumCol (map Some ?scores)) (extra (h t)))))\<rparr>)"
    by (simp only: flag_transactions_def Let_def snd_conv)
  have c1: "map_of (extra (h' t)) ''risk_score'' = Some (NumCol (map Some ?scores))"
    and c2: "map_of (extra (h' t)) ''risk_band'' = Some (ObjCol ?bands)"
    and c3: "map_of (extra (h' t)) ''is_anomaly'' = Some (NumCol (map (\<lambda>a. Some (of_int a)) ?anoms))"
    and c4: "map_of (extra (h' t)) ''is_flagged'' = Some (BoolCol ?flags)"
    and b: "base (h' t) = base (h t)"
    by (simp_all add: h' map_of_set_col)
  have rows: "\<forall>i<length (base (h t)).
          (nameOrig (base (h t) ! i) \<notin> customer ` set rrs \<longrightarrow>
             map Some ?scores ! i = Some 0 \<and> ?bands ! i = ''Low'' \<and>
             map (\<lambda>a. Some (of_int a)) ?anoms ! i = Some 0 \<and>
             (risk_threshold self = 50 \<longrightarrow> ?flags ! i = False)) \<and>
          (\<forall>r\<in>set rrs. distinct (map customer rrs) \<and> customer r = nameOrig (base (h t) ! i) \<longrightarrow>
             map Some ?scores ! i = Some (case risk_score r of Some x \<Rightarrow> x | None \<Rightarrow> 0) \<and>
             ?bands ! i = risk_band r \<and>
             map (\<lambda>a. Some (of_int a)) ?anoms ! i = Some (of_int (is_anomaly r)) \<and>
             ?flags ! i = (risk_threshold self \<le> (case risk_score r of Some x \<Rightarrow> x | None \<Rightarrow> 0)))"
  proof (intro allI impI conjI ballI)
    fix i assume i: "i < length (base (h t))"
    { assume miss: "nameOrig (base (h t) ! i) \<notin> customer ` set rrs"
      show "map Some ?scores ! i = Some 0" using i miss by (simp add: dict_zip_miss)
      show "?bands ! i = ''Low''" using i miss by (simp add: dict_zip_miss)
      show "map (\<lambda>a. Some (of_int a)) ?anoms ! i = Some 0" using i miss by (simp add: dict_zip_miss)
      { assume "risk_threshold self = 50"
        then show "?flags ! i = False" using i miss by (simp add: dict_zip_miss) } }
    { fix r assume r: "r \<in> set rrs"
        and d: "distinct (map customer rrs) \<and> customer r = nameOrig (base (h t) ! i)"
      from d have e: "nameOrig (base (h t) ! i) = customer r" by simp
      show "map Some ?scores ! i = Some (case risk_score r of Some x \<Rightarrow> x | None \<Rightarrow> 0)"
        using i d r by (simp add: e dict_zip_hit split: option.splits)
      show "?bands ! i = risk_band r"
        using i d r by (simp add: e dict_zip_hit)
      show "map (\<lambda>a. Some (of_int a)) ?anoms ! i = Some (of_int (is_anomaly r))"
        using i d r by (simp add: e dict_zip_hit)
      show "?flags ! i = (risk_threshold self \<le> (case risk_score r of Some x \<Rightarrow> x | None \<Rightarrow> 0))"
        using i d r by (simp add: e dict_zip_hit split: option.splits) }
  qed
  show ?thesis
    apply (rule conjI [OF ok])
    apply (rule exI [of _ "map Some ?scores"], rule exI [of _ ?bands])
    apply (rule exI [of _ "map (\<lambda>a. Some (of_int a)) ?anoms"], rule exI [of _ ?flags])
    apply (intro conjI)
    apply (fact c1 c2 c3 c4 b rows)+
    done
qed

theorem flag_missing_key_defaults_witness:
  "fst (flag_transactions flagger0 0 medium_risk (empty_store(0 := two_rows))) = (True, Flagged 0 2)
   \<and> extra (snd (snd (flag_transactions flagger0 0 medium_risk (empty_store(0 := two_rows)))) 0) =
       [(''risk_score'', NumCol [Some 30, Some 0]), (''risk_band'', ObjCol [''Medium'', ''Low'']),
        (''is_anomaly'', NumCol [Some 0, Some 0]), (''is_flagged'', BoolCol [False, False])]"
  using flag_missing_key_defaults [OF flag_example] flag_example
  by simp

text \<open>
  Claim C8 fails on the code.  The per-band entries of the summary count every row of the
  table that carries the band, flagged or not: with the default threshold 50 a transaction
  of a Medium customer (risk score 30) is not flagged, the table has no flagged row at all,
  and yet the summary reports one Medium transaction.
\<close>

theorem flag_summary_counts_unflagged_rows:
  "map_option by_risk_band
     (summary (fst (snd (flag_transactions flagger0 0 medium_risk (empty_store(0 := two_rows))))))
     = Some [(''Critical'', 0), (''High'', 0), (''Medium'', 1)]
   \<and> map_option flagged_transactions
     (summary (fst (snd (flag_transactions flagger0 0 medium_risk (empty_store(0 := two_rows))))))
     = Some 0
   \<and> map_of (extra (snd (snd (flag_transactions flagger0 0 medium_risk (empty_store(0 := two_rows)))) 0))
       ''is_flagged'' = Some (BoolCol [False, False])"
  by (simp add: flag_example)

section \<open>Feature building\<close>

lemma build_features_eq:
  "build_features self r h =
     ((True, Built (length (base (add_rolling_features (add_velocity_features
          (add_customer_features (add_transaction_features (h r)))))))),
      self\<lparr>features := Some r\<rparr>,
      h(r := add_rolling_features (add_velocity_features
          (add_customer_features (add_transaction_features (h r))))))"
  by (simp add: build_features_def Let_def)

lemmas builder_defs = add_transaction_features_def add_customer_features_def
  add_velocity_features_def add_rolling_features_def sort_values_def rolling_def rolling_window_def
  window_def rank_def customer_grp_def group_vals_def mean_def max_list_def daily_count_def Let_def

lemma scenario_built:
  "add_rolling_features (add_velocity_features (add_customer_features
     (add_transaction_features scenario))) = scenario_features"
  by (simp add: builder_defs scenario_def scenario_features_def c1_txn_def)

lemma unsorted_built:
  "add_rolling_features (add_velocity_features (add_customer_features
     (add_transaction_features unsorted))) = unsorted_features"
  by (simp add: builder_defs unsorted_def unsorted_features_def c1_txn_def)

lemma drained_built:
  "add_rolling_features (add_velocity_features (add_customer_features
     (add_transaction_features drained))) = drained_features"
  by (simp add: builder_defs drained_def drained_features_def txn0_def)

lemma base_steps [simp]:
  "base (add_transaction_features df) = base df"
  "base (add_customer_features df) = base df"
  "base (add_velocity_features df) = base df"
  "base (add_rolling_features df) = base (sort_values df)"
  by (simp_all add: add_transaction_features_def add_customer_features_def
      add_velocity_features_def add_rolling_features_def Let_def)

lemma base_sort_values:
  "base (sort_values df) =
     map (\<lambda>i. base df ! i)
       (sort_key (\<lambda>i. (nameOrig (base df ! i), step (base df ! i))) [0..<length (base df)])"
  by (simp add: sort_values_def Let_def)

lemma sorted_sort_values:
  "sorted (map (\<lambda>q. (nameOrig q, step q)) (base (sort_values df)))"
proof -
  let ?f = "\<lambda>i. (nameOrig (base df ! i), step (base df ! i))"
  have "map (\<lambda>q. (nameOrig q, step q)) (base (sort_values df)) =
          map ?f (sort_key ?f [0..<length (base df)])"
    by (simp add: base_sort_values comp_def)
  then show ?thesis by (simp only: sorted_sort_key)
qed

lemma mset_sort_values: "mset (base (sort_values df)) = mset (base df)"
proof -
  let ?f = "\<lambda>i. (nameOrig (base df ! i), step (base df ! i))"
  have "mset (base (sort_values df)) =
          image_mset (\<lambda>i. base df ! i) (mset (sort_key ?f [0..<length (base df)]))"
    by (simp add: base_sort_values)
  also have "\<dots> = mset (map (\<lambda>i. base df ! i) [0..<length (base df)])"
    by simp
  also have "\<dots> = mset (base df)"
    by (simp add: map_nth)
  finally show ?thesis .
qed

subsection \<open>The rolling window\<close>

lemma group_vals_append:
  "length a = length b \<Longrightarrow> group_vals (a @ c) k (b @ d) = group_vals a k b @ group_vals c k d"
  by (simp add: group_vals_def)

lemma length_group_vals:
  "length a = length b \<Longrightarrow> length (group_vals a k b) = length (filter (\<lambda>x. x = k) a)"
  by (induction a b rule: list_induct2) (auto simp: group_vals_def)

lemma group_vals_map: "group_vals (map f xs) k (map g xs) = map g (filter (\<lambda>x. f x = k) xs)"
  by (induction xs) (auto simp: group_vals_def)

lemma length_group_vals_take:
  assumes "i < length keys" "length vals = length keys"
  shows "length (group_vals (take (Suc i) keys) (keys ! i) (take (Suc i) vals)) = Suc (rank keys i)"
proof -
  have l: "length (take (Suc i) keys) = length (take (Suc i) vals)"
    using assms by simp
  have "length (group_vals (take (Suc i) keys) (keys ! i) (take (Suc i) vals)) =
          length (filter (\<lambda>x. x = keys ! i) (take (Suc i) keys))"
    by (rule length_group_vals [OF l])
  also have "\<dots> = Suc (rank keys i)"
    using assms by (simp add: rank_def take_Suc_conv_app_nth)
  finally show ?thesis .
qed

lemma group_vals_rank:
  assumes "i < length keys" "length vals = length keys"
  shows "take (Suc (rank keys i)) (group_vals keys (keys ! i) vals) =
           group_vals (take (Suc i) keys) (keys ! i) (take (Suc i) vals)"
proof -
  let ?k = "keys ! i"
  have l: "length (take (Suc i) keys) = length (take (Suc i) vals)"
    using assms by simp
  have "group_vals keys ?k vals =
          group_vals (take (Suc i) keys) ?k (take (Suc i) vals) @
          group_vals (drop (Suc i) keys) ?k (drop (Suc i) vals)"
    using group_vals_append [OF l, of "drop (Suc i) keys" ?k "drop (Suc i) vals"] by simp
  moreover have "length (group_vals (take (Suc i) keys) ?k (take (Suc i) vals)) = Suc (rank keys i)"
    by (rule length_group_vals_take [OF assms])
  ultimately show ?thesis by simp
qed

lemma window_trailing:
  assumes "i < length rows"
  shows "window rolling_window (customer_grp rows (nameOrig (rows ! i))) (rank (map nameOrig rows) i)
           = spec_trailing_window rows i"
proof -
  let ?keys = "map nameOrig rows" and ?vals = "map amount rows"
  let ?own = "map amount (filter (\<lambda>q. nameOrig q = nameOrig (rows ! i)) (take (Suc i) rows))"
  have a: "take (Suc (rank ?keys i)) (group_vals ?keys (?keys ! i) ?vals) =
             group_vals (take (Suc i) ?keys) (?keys ! i) (take (Suc i) ?vals)"
    by (rule group_vals_rank) (use assms in simp_all)
  have b: "group_vals (take (Suc i) ?keys) (?keys ! i) (take (Suc i) ?vals) = ?own"
    using assms by (simp add: take_map group_vals_map)
  have k: "?keys ! i = nameOrig (rows ! i)"
    using assms by simp
  have t: "take (Suc (rank ?keys i)) (customer_grp rows (nameOrig (rows ! i))) = ?own"
    unfolding customer_grp_def using a b unfolding k by simp
  have "length (group_vals (take (Suc i) ?keys) (?keys ! i) (take (Suc i) ?vals)) =
          Suc (rank ?keys i)"
    by (rule length_group_vals_take) (use assms in simp_all)
  then have "length ?own = Suc (rank ?keys i)"
    unfolding b .
  then show ?thesis
    by (simp add: window_def t spec_trailing_window_def Let_def rolling_window_def)
qed

lemma rolling_trailing:
  "rolling rolling_window f rows = map (\<lambda>i. f (spec_trailing_window rows i)) [0..<length rows]"
  by (simp add: rolling_def window_trailing)

lemma trailing_last:
  assumes "i < length rows"
  shows "spec_trailing_window rows i \<noteq> [] \<and> last (spec_trailing_window rows i) = amount (rows ! i)"
proof -
  let ?own = "map amount (filter (\<lambda>q. nameOrig q = nameOrig (rows ! i)) (take (Suc i) rows))"
  have own: "?own = map amount (filter (\<lambda>q. nameOrig q = nameOrig (rows ! i)) (take i rows))
                      @ [amount (rows ! i)]"
    using assms by (simp add: take_Suc_conv_app_nth)
  then have ne: "?own \<noteq> []" and la: "last ?own = amount (rows ! i)"
    by simp_all
  have lt: "length ?own - 5 < length ?own"
    using ne by (cases ?own) auto
  show ?thesis
    using lt la by (simp add: spec_trailing_window_def Let_def)
qed

lemma sum_list_le_max:
  fixes xs :: "real list"
  assumes "xs \<noteq> []"
  shows "sum_list xs / real (length xs) \<le> Max (set xs)"
proof -
  have "sum_list xs \<le> sum_list (map (\<lambda>x. Max (set xs)) xs)"
    using sum_list_mono [of xs "\<lambda>x. x" "\<lambda>x. Max (set xs)"] by simp
  also have "\<dots> = real (length xs) * Max (set xs)"
    by (simp add: sum_list_triv)
  finally show ?thesis
    using assms by (simp add: field_simps)
qed

lemma rolling_cols:
  "map_of (extra (add_rolling_features df)) ''rolling_mean_amount'' =
     Some (NumCol (rolling rolling_window mean (base (sort_values df))))"
  "map_of (extra (add_rolling_features df)) ''rolling_max_amount'' =
     Some (NumCol (rolling rolling_window max_list (base (sort_values df))))"
  by (simp_all add: add_rolling_features_def Let_def map_of_set_col)

text \<open>
  Claim C10.  In the table that a successful \<open>build_features\<close> leaves behind, every row
  has a rolling maximum and a rolling mean, the rolling maximum is at least the amount of
  the row itself, and it is at least the rolling mean.
\<close>

theorem rolling_max_dominates:
  assumes "build_features self r h = ((True, msg), self', h')"
  shows "\<exists>rmean rmax. map_of (extra (h' r)) ''rolling_mean_amount'' = Some (NumCol rmean) \<and>
           map_of (extra (h' r)) ''rolling_max_amount'' = Some (NumCol rmax) \<and>
           length rmean = length (base (h' r)) \<and> length rmax = length (base (h' r)) \<and>
           (\<forall>i<length (base (h' r)). \<exists>mn mx. rmean ! i = Some mn \<and> rmax ! i = Some mx \<and>
               amount (base (h' r) ! i) \<le> mx \<and> mn \<le> mx)"
proof -
  let ?df = "add_velocity_features (add_customer_features (add_transaction_features (h r)))"
  let ?rows = "base (sort_values ?df)"
  have h': "h' r = add_rolling_features ?df"
    using assms by (auto simp: build_features_eq)
  have b: "base (h' r) = ?rows" by (simp add: h')
  have m: "map_of (extra (h' r)) ''rolling_mean_amount'' =
             Some (NumCol (map (\<lambda>i. mean (spec_trailing_window ?rows i)) [0..<length ?rows]))"
    by (simp add: h' rolling_cols rolling_trailing)
  have x: "map_of (extra (h' r)) ''rolling_max_amount'' =
             Some (NumCol (map (\<lambda>i. max_list (spec_trailing_window ?rows i)) [0..<length ?rows]))"
    by (simp add: h' rolling_cols rolling_trailing)
  have rows: "\<forall>i<length ?rows. \<exists>mn mx.
      map (\<lambda>i. mean (spec_trailing_window ?rows i)) [0..<length ?rows] ! i = Some mn \<and>
      map (\<lambda>i. max_list (spec_trailing_window ?rows i)) [0..<length ?rows] ! i = Some mx \<and>
      amount (?rows ! i) \<le> mx \<and> mn \<le> mx"
  proof (intro allI impI)
    fix i assume i: "i < length ?rows"
    let ?w = "spec_trailing_window ?rows i"
    from trailing_last [OF i] have ne: "?w \<noteq> []" and la: "last ?w = amount (?rows ! i)"
      by simp_all
    have "amount (?rows ! i) \<in> set ?w" using ne la last_in_set by metis
    then have a: "amount (?rows ! i) \<le> Max (set ?w)" by simp
    have c: "sum_list ?w / real (length ?w) \<le> Max (set ?w)"
      by (rule sum_list_le_max [OF ne])
    show "\<exists>mn mx.
      map (\<lambda>i. mean (spec_trailing_window ?rows i)) [0..<length ?rows] ! i = Some mn \<and>
      map (\<lambda>i. max_list (spec_trailing_window ?rows i)) [0..<length ?rows] ! i = Some mx \<and>
      amount (?rows ! i) \<le> mx \<and> mn \<le> mx"
      using i ne a c by (simp add: mean_def max_list_def)
  qed
  show ?thesis
    apply (rule exI [of _ "map (\<lambda>i. mean (spec_trailing_window ?rows i)) [0..<length ?rows]"])
    apply (rule exI [of _ "map (\<lambda>i. max_list (spec_trailing_window ?rows i)) [0..<length ?rows]"])
    using m x rows by (simp add: b)
qed

theorem rolling_max_dominates_witness:
  "build_features builder0 0 (empty_store(0 := unsorted)) =
     ((True, Built 2), \<lparr>features = Some 0\<rparr>, empty_store(0 := unsorted_features))
   \<and> map amount (base unsorted_features) = [600, 100]
   \<and> map_of (extra unsorted_features) ''rolling_mean_amount'' = Some (NumCol [Some 600, Some 350])
   \<and> map_of (extra unsorted_features) ''rolling_max_amount'' = Some (NumCol [Some 600, Some 600])"
proof -
  have e: "build_features builder0 0 (empty_store(0 := unsorted)) =
     ((True, Built 2), \<lparr>features = Some 0\<rparr>, empty_store(0 := unsorted_features))"
    by (simp add: build_features_eq unsorted_built builder0_def) (simp add: unsorted_features_def)
  from rolling_max_dominates [OF e] e show ?thesis
    by (simp add: unsorted_features_def c1_txn_def)
qed

lemma rolling_mean_trailing:
  "rolling rolling_window mean rows =
     map (\<lambda>i. Some (sum_list (spec_trailing_window rows i)
                      / real (length (spec_trailing_window rows i)))) [0..<length rows]"
  unfolding rolling_trailing by (rule map_cong [OF refl]) (simp add: mean_def trailing_last)

lemma rolling_max_trailing:
  "rolling rolling_window max_list rows =
     map (\<lambda>i. Some (Max (set (spec_trailing_window rows i)))) [0..<length rows]"
  unfolding rolling_trailing by (rule map_cong [OF refl]) (simp add: max_list_def trailing_last)

text \<open>
  Claim C7.  \<open>build_features\<close> leaves the rows sorted by originator id, then step, and
  the rolling mean and maximum of a row are the sum divided by the number, and the greatest,
  of the amounts of the last five transactions of its originator up to and including the
  row (fewer at the start of the originator's run).  For originator C1 with amounts 100 to
  600 at steps 1 to 6 of one day, every row gets a daily velocity of 6, and the sixth row a
  rolling mean of 400 and a rolling maximum of 600.
\<close>

theorem rolling_features_trailing_window:
  assumes "build_features self r h = (out, self', h')"
  shows "sorted (map (\<lambda>q. (nameOrig q, step q)) (base (h' r))) \<and>
         mset (base (h' r)) = mset (base (h r)) \<and>
         map_of (extra (h' r)) ''rolling_mean_amount'' =
           Some (NumCol (map (\<lambda>i. Some (sum_list (spec_trailing_window (base (h' r)) i)
                                         / real (length (spec_trailing_window (base (h' r)) i))))
                   [0..<length (base (h' r))])) \<and>
         map_of (extra (h' r)) ''rolling_max_amount'' =
           Some (NumCol (map (\<lambda>i. Some (Max (set (spec_trailing_window (base (h' r)) i))))
                   [0..<length (base (h' r))])) \<and>
         (h r = scenario \<longrightarrow>
            map_of (extra (h' r)) ''daily_trns_velocity'' = Some (NumCol (replicate 6 (Some 6))) \<and>
            (\<exists>rmean rmax. map_of (extra (h' r)) ''rolling_mean_amount'' = Some (NumCol rmean) \<and>
               map_of (extra (h' r)) ''rolling_max_amount'' = Some (NumCol rmax) \<and>
               rmean ! 5 = Some 400 \<and> rmax ! 5 = Some 600))"
proof -
  let ?df = "add_velocity_features (add_customer_features (add_transaction_features (h r)))"
  have h': "h' r = add_rolling_features ?df"
    using assms by (auto simp: build_features_eq)
  have b: "base (h' r) = base (sort_values ?df)" by (simp add: h')
  have s: "sorted (map (\<lambda>q. (nameOrig q, step q)) (base (h' r)))"
    unfolding b by (rule sorted_sort_values)
  have p: "mset (base (h' r)) = mset (base (h r))"
    unfolding b by (simp add: mset_sort_values)
  have m: "map_of (extra (h' r)) ''rolling_mean_amount'' =
           Some (NumCol (map (\<lambda>i. Some (sum_list (spec_trailing_window (base (h' r)) i)
                                         / real (length (spec_trailing_window (base (h' r)) i))))
                   [0..<length (base (h' r))]))"
    unfolding b by (simp only: h' rolling_cols rolling_mean_trailing)
  have x: "map_of (extra (h' r)) ''rolling_max_amount'' =
           Some (NumCol (map (\<lambda>i. Some (Max (set (spec_trailing_window (base (h' r)) i))))
                   [0..<length (base (h' r))]))"
    unfolding b by (simp only: h' rolling_cols rolling_max_trailing)
  have c: "h r = scenario \<longrightarrow>
            map_of (extra (h' r)) ''daily_trns_velocity'' = Some (NumCol (replicate 6 (Some 6))) \<and>
            (\<exists>rmean rmax. map_of (extra (h' r)) ''rolling_mean_amount'' = Some (NumCol rmean) \<and>
               map_of (extra (h' r)) ''rolling_max_amount'' = Some (NumCol rmax) \<and>
               rmean ! 5 = Some 400 \<and> rmax ! 5 = Some 600)"
  proof
    assume "h r = scenario"
    then have "h' r = scenario_features"
      by (simp add: h' scenario_built)
    then show "map_of (extra (h' r)) ''daily_trns_velocity'' = Some (NumCol (replicate 6 (Some 6))) \<and>
            (\<exists>rmean rmax. map_of (extra (h' r)) ''rolling_mean_amount'' = Some (NumCol rmean) \<and>
               map_of (extra (h' r)) ''rolling_max_amount'' = Some (NumCol rmax) \<and>
               rmean ! 5 = Some 400 \<and> rmax ! 5 = Some 600)"
      by (simp add: scenario_features_def numeral_eq_Suc)
  qed
  from s p m x c show ?thesis by (intro conjI)
qed

theorem rolling_features_trailing_window_witness:
  "build_features builder0 0 (empty_store(0 := scenario)) =
     ((True, Built 6), \<lparr>features = Some 0\<rparr>, empty_store(0 := scenario_features))
   \<and> map step (base scenario_features) = [1, 2, 3, 4, 5, 6]
   \<and> map_of (extra scenario_features) ''daily_trns_velocity'' =
       Some (NumCol [Some 6, Some 6, Some 6, Some 6, Some 6, Some 6])
   \<and> map_of (extra scenario_features) ''rolling_mean_amount'' =
       Some (NumCol [Some 100, Some 150, Some 200, Some 250, Some 300, Some 400])
   \<and> map_of (extra scenario_features) ''rolling_max_amount'' =
       Some (NumCol [Some 100, Some 200, Some 300, Some 400, Some 500, Some 600])
   \<and> spec_trailing_window (base scenario_features) 5 = [200, 300, 400, 500, 600]
   \<and> build_features builder0 0 (empty_store(0 := unsorted)) =
       ((True, Built 2), \<lparr>features = Some 0\<rparr>, empty_store(0 := unsorted_features))
   \<and> map step (base unsorted) = [2, 1] \<and> map amount (base unsorted) = [100, 600]
   \<and> map step (base unsorted_features) = [1, 2]
   \<and> map amount (base unsorted_features) = [600, 100]
   \<and> spec_trailing_window (base unsorted_features) 1 = [600, 100]
   \<and> map_of (extra unsorted_features) ''rolling_mean_amount'' = Some (NumCol [Some 600, Some 350])
   \<and> map_of (extra unsorted_features) ''rolling_max_amount'' = Some (NumCol [Some 600, Some 600])"
proof -
  have e: "build_features builder0 0 (empty_store(0 := scenario)) =
     ((True, Built 6), \<lparr>features = Some 0\<rparr>, empty_store(0 := scenario_features))"
    by (simp add: build_features_eq scenario_built builder0_def)
       (simp add: scenario_features_def scenario_def)
  have u: "build_features builder0 0 (empty_store(0 := unsorted)) =
     ((True, Built 2), \<lparr>features = Some 0\<rparr>, empty_store(0 := unsorted_features))"
    by (simp add: build_features_eq unsorted_built builder0_def) (simp add: unsorted_features_def)
  have t: "map step (base scenario_features) = [1, 2, 3, 4, 5, 6]"
    by (simp add: scenario_features_def scenario_def c1_txn_def)
  have w: "spec_trailing_window (base scenario_features) 5 = [200, 300, 400, 500, 600]"
    by (simp add: spec_trailing_window_def scenario_features_def scenario_def c1_txn_def
        numeral_eq_Suc)
  have us: "map step (base unsorted) = [2, 1]" "map amount (base unsorted) = [100, 600]"
    "map step (base unsorted_features) = [1, 2]"
    "map amount (base unsorted_features) = [600, 100]"
    by (simp_all add: unsorted_def unsorted_features_def c1_txn_def)
  have uw: "spec_trailing_window (base unsorted_features) 1 = [600, 100]"
    by (simp add: spec_trailing_window_def unsorted_features_def c1_txn_def)
  from rolling_features_trailing_window [OF e] e
  have sc: "map_of (extra scenario_features) ''daily_trns_velocity'' =
       Some (NumCol [Some 6, Some 6, Some 6, Some 6, Some 6, Some 6])
   \<and> map_of (extra scenario_features) ''rolling_mean_amount'' =
       Some (NumCol [Some 100, Some 150, Some 200, Some 250, Some 300, Some 400])
   \<and> map_of (extra scenario_features) ''rolling_max_amount'' =
       Some (NumCol [Some 100, Some 200, Some 300, Some 400, Some 500, Some 600])"
    by (simp add: scenario_features_def)
  from rolling_features_trailing_window [OF u]
  have "map_of (extra unsorted_features) ''rolling_mean_amount'' =
           Some (NumCol (map (\<lambda>i. Some (sum_list (spec_trailing_window (base unsorted_features) i)
                                / real (length (spec_trailing_window (base unsorted_features) i))))
                   [0..<length (base unsorted_features)]))"
    and "map_of (extra unsorted_features) ''rolling_max_amount'' =
           Some (NumCol (map (\<lambda>i. Some (Max (set (spec_trailing_window (base unsorted_features) i))))
                   [0..<length (base unsorted_features)]))"
    by simp_all
  then have un: "map_of (extra unsorted_features) ''rolling_mean_amount'' = Some (NumCol [Some 600, Some 350])
    \<and> map_of (extra unsorted_features) ''rolling_max_amount'' = Some (NumCol [Some 600, Some 600])"
    by (simp add: unsorted_features_def)
  from e t sc w u us uw un show ?thesis by (intro conjI) simp_all
qed

subsection \<open>The table is changed in place\<close>

lemma names_sort_values: "map fst (extra (sort_values df)) = map fst (extra df)"
  by (simp add: sort_values_def Let_def comp_def)

lemma names_built:
  "fst ` set (extra (add_rolling_features (add_velocity_features (add_customer_features
      (add_transaction_features df))))) =
   {''rolling_max_amount'', ''rolling_mean_amount'', ''daily_trns_velocity'', ''day'',
    ''trns_max_customer'', ''trns_avg_customer'', ''trns_total_customer'',
    ''trns_count_customer'', ''hour_of_day'', ''is_full_drain'', ''balance_ratio_orig''}
     \<union> fst ` set (extra df)"
proof -
  have s: "fst ` set (extra (sort_values d)) = fst ` set (extra d)" for d
    using names_sort_values [of d] by (metis set_map)
  have r: "fst ` set (extra (add_rolling_features d)) =
             insert ''rolling_max_amount'' (insert ''rolling_mean_amount'' (fst ` set (extra d)))" for d
    by (simp add: add_rolling_features_def Let_def names_set_col s)
  have v: "fst ` set (extra (add_velocity_features d)) =
             insert ''daily_trns_velocity'' (insert ''day'' (fst ` set (extra d)))" for d
    by (simp add: add_velocity_features_def names_set_col)
  have c: "fst ` set (extra (add_customer_features d)) =
             insert ''trns_max_customer'' (insert ''trns_avg_customer''
               (insert ''trns_total_customer'' (insert ''trns_count_customer'' (fst ` set (extra d)))))" for d
    by (simp add: add_customer_features_def names_set_col)
  have t: "fst ` set (extra (add_transaction_features d)) =
             insert ''hour_of_day'' (insert ''is_full_drain''
               (insert ''balance_ratio_orig'' (fst ` set (extra d))))" for d
    by (simp add: add_transaction_features_def names_set_col)
  show ?thesis
    by (simp only: r v c t Un_insert_left Un_empty_left)
qed

text \<open>
  Claim C9, as the code has it.  \<open>build_features\<close> works in place: it keeps the
  reference to the table it is given, and that very table becomes the feature table, with
  the eleven derived columns added and its rows sorted by originator id, then step.  No
  other table of the store changes, and the outcome and the resulting table depend on the
  contents of the table alone: a run on any table with the same contents gives the same
  result.
\<close>

theorem build_features_in_place:
  assumes "build_features self r h = (out, self', h')"
  shows "fst out = True \<and> features self' = Some r \<and>
         (\<forall>r'. r' \<noteq> r \<longrightarrow> h' r' = h r') \<and>
         mset (base (h' r)) = mset (base (h r)) \<and>
         sorted (map (\<lambda>q. (nameOrig q, step q)) (base (h' r))) \<and>
         fst ` set (extra (h' r)) = {''rolling_max_amount'', ''rolling_mean_amount'', ''daily_trns_velocity'', ''day'',
            ''trns_max_customer'', ''trns_avg_customer'', ''trns_total_customer'',
            ''trns_count_customer'', ''hour_of_day'', ''is_full_drain'', ''balance_ratio_orig''}
           \<union> fst ` set (extra (h r)) \<and>
         (\<forall>self2 r2 h2. h2 r2 = h r \<longrightarrow>
            fst (build_features self2 r2 h2) = out \<and>
            snd (snd (build_features self2 r2 h2)) r2 = h' r)"
proof -
  let ?F = "\<lambda>d. add_rolling_features (add_velocity_features (add_customer_features
              (add_transaction_features d)))"
  have o: "out = (True, Built (length (base (?F (h r)))))"
    and s: "self' = self\<lparr>features := Some r\<rparr>"
    and h': "h' = h(r := ?F (h r))"
    using assms by (auto simp: build_features_eq)
  have 1: "fst out = True" by (simp add: o)
  have 2: "features self' = Some r" by (simp add: s)
  have 3: "\<forall>r'. r' \<noteq> r \<longrightarrow> h' r' = h r'" by (simp add: h')
  have 4: "mset (base (h' r)) = mset (base (h r))"
    by (simp add: h' mset_sort_values)
  have 5: "sorted (map (\<lambda>q. (nameOrig q, step q)) (base (h' r)))"
    using sorted_sort_values by (simp add: h')
  have 6: "fst ` set (extra (h' r)) = {''rolling_max_amount'', ''rolling_mean_amount'', ''daily_trns_velocity'', ''day'',
            ''trns_max_customer'', ''trns_avg_customer'', ''trns_total_customer'',
            ''trns_count_customer'', ''hour_of_day'', ''is_full_drain'', ''balance_ratio_orig''}
           \<union> fst ` set (extra (h r))"
    unfolding h' fun_upd_same by (rule names_built)
  have 7: "\<forall>self2 r2 h2. h2 r2 = h r \<longrightarrow>
            fst (build_features self2 r2 h2) = out \<and>
            snd (snd (build_features self2 r2 h2)) r2 = h' r"
    by (simp add: build_features_eq o h')
  from 1 2 3 4 5 6 7 show ?thesis by (intro conjI)
qed

lemma unsorted_run:
  "build_features builder0 0 (empty_store(0 := unsorted)) =
     ((True, Built 2), \<lparr>features = Some 0\<rparr>, empty_store(0 := unsorted_features))"
  by (simp add: build_features_eq unsorted_built builder0_def) (simp add: unsorted_features_def)

theorem build_features_in_place_witness:
  "build_features builder0 0 (empty_store(0 := unsorted)) =
     ((True, Built 2), \<lparr>features = Some 0\<rparr>, empty_store(0 := unsorted_features))
   \<and> map step (base unsorted) = [2, 1] \<and> map step (base unsorted_features) = [1, 2]
   \<and> features (fst (snd (build_features builder0 0 (empty_store(0 := unsorted))))) = Some 0"
  using build_features_in_place [OF unsorted_run] unsorted_run
  by (simp add: unsorted_def unsorted_features_def c1_txn_def)

text \<open>
  The table passed to \<open>build_features\<close> does not stay as it was: for the two
  transactions given with the later one first, the call leaves them in the other order and
  the table has eleven more columns.
\<close>

theorem build_features_changes_its_input:
  "map step (base ((empty_store(0 := unsorted)) 0)) = [2, 1]
   \<and> extra ((empty_store(0 := unsorted)) 0) = []
   \<and> map step (base (snd (snd (build_features builder0 0 (empty_store(0 := unsorted)))) 0)) = [1, 2]
   \<and> map fst (extra (snd (snd (build_features builder0 0 (empty_store(0 := unsorted)))) 0)) =
       [''balance_ratio_orig'', ''is_full_drain'', ''hour_of_day'', ''trns_count_customer'',
        ''trns_total_customer'', ''trns_avg_customer'', ''trns_max_customer'', ''day'',
        ''daily_trns_velocity'', ''rolling_mean_amount'', ''rolling_max_amount'']"
  by (simp add: unsorted_run) (simp add: unsorted_def unsorted_features_def c1_txn_def)

lemma drained_run:
  "build_features builder0 0 (empty_store(0 := drained)) =
     ((True, Built 3), \<lparr>features = Some 0\<rparr>, empty_store(0 := drained_features))"
  by (simp add: build_features_eq drained_built builder0_def) (simp add: drained_features_def drained_def)

section \<open>Aggregation of the feature table\<close>

text \<open>
  Claim C3 fails on the code.  \<open>is_full_drain\<close> is a boolean column, so it is not
  among the numeric columns that \<open>_aggregate_to_customer\<close> aggregates: customer A has two
  full drains, and the aggregate table has no \<open>is_full_drain\<close> column at all.  The other
  columns are aggregated as claimed (the count and the daily velocity by sum, the rest by
  mean).
\<close>

theorem aggregate_drops_is_full_drain:
  "map_of (extra (snd (snd (build_features builder0 0 (empty_store(0 := drained)))) 0))
     ''is_full_drain'' = Some (BoolCol [True, True, False])
   \<and> aggregate_to_customer
       (as_frame (snd (snd (build_features builder0 0 (empty_store(0 := drained)))) 0)) =
     Inr \<lparr>ids = Some [''A'', ''Z''],
          cols = [(''step'', NumCol [Some (3/2), Some 1]),
                  (''amount'', NumCol [Some 100, Some 100]),
                  (''oldbalanceOrg'', NumCol [Some 100, Some 100]),
                  (''newbalanceOrig'', NumCol [Some 0, Some 50]),
                  (''oldbalanceDest'', NumCol [Some 0, Some 0]),
                  (''newbalanceDest'', NumCol [Some 100, Some 100]),
                  (''isFraud'', NumCol [Some 0, Some 0]),
                  (''isFlaggedFraud'', NumCol [Some 0, Some 0]),
                  (''balance_ratio_orig'', NumCol [Some 1, Some 1]),
                  (''hour_of_day'', NumCol [Some (3/2), Some 1]),
                  (''trns_count_customer'', NumCol [Some 4, Some 1]),
                  (''trns_total_customer'', NumCol [Some 200, Some 100]),
                  (''trns_avg_customer'', NumCol [Some 100, Some 100]),
                  (''trns_max_customer'', NumCol [Some 100, Some 100]),
                  (''day'', NumCol [Some 0, Some 0]),
                  (''daily_trns_velocity'', NumCol [Some 4, Some 1]),
                  (''rolling_mean_amount'', NumCol [Some 100, Some 100]),
                  (''rolling_max_amount'', NumCol [Some 100, Some 100])]\<rparr>"
  by (simp add: drained_run)
     (simp add: as_frame_def drained_features_def drained_def txn0_def aggregate_to_customer_def
      numeric_cols_def is_numeric_def agg_dict_def sum_columns_def group_vals_def agg_mean_def
      agg_sum_def mean_def Let_def)

section \<open>Success and failure of scoring\<close>

lemma set_set_col: "set (set_col n c cs) \<subseteq> insert (n, c) (set cs)"
  by (induction cs) (auto split: if_splits)

lemma all_numeric_set_col:
  "all_numeric rs \<Longrightarrow> all_numeric (rs\<lparr>cols := set_col n (NumCol xs) (cols rs)\<rparr>)"
  using set_set_col [of n "NumCol xs" "cols rs"]
  by (auto simp: all_numeric_def is_numeric_def)

lemma all_numeric_lookup:
  "all_numeric rs \<Longrightarrow> n \<in> fst ` set (cols rs) \<Longrightarrow> \<exists>xs. map_of (cols rs) n = Some (NumCol xs)"
proof -
  assume a: "all_numeric rs" and n: "n \<in> fst ` set (cols rs)"
  from n obtain c where c: "map_of (cols rs) n = Some c"
    by (metis domD dom_map_of_conv_image_fst)
  then have "(n, c) \<in> set (cols rs)" by (rule map_of_SomeD)
  with a have "is_numeric c" by (auto simp: all_numeric_def)
  then obtain xs where "c = NumCol xs" by (cases c) (auto simp: is_numeric_def)
  with c show ?thesis by simp
qed

lemma compute_z_scores_numeric:
  "all_numeric rs \<Longrightarrow> set fs \<subseteq> fst ` set (cols rs) \<Longrightarrow>
     \<exists>rs'. compute_z_scores fs rs = Inr rs' \<and> all_numeric rs' \<and> ids rs' = ids rs"
proof (induction fs arbitrary: rs)
  case Nil
  then show ?case by simp
next
  case (Cons f fs)
  from Cons.prems obtain xs where xs: "map_of (cols rs) f = Some (NumCol xs)"
    using all_numeric_lookup [of rs f] by auto
  let ?rs = "rs\<lparr>cols := set_col (f @ ''_zscore'') (NumCol (zscore (fillna0 xs))) (cols rs)\<rparr>"
  have "all_numeric ?rs" using Cons.prems(1) by (rule all_numeric_set_col)
  moreover have "set fs \<subseteq> fst ` set (cols ?rs)"
    using Cons.prems(2) by (auto simp: names_set_col)
  ultimately obtain rs' where "compute_z_scores fs ?rs = Inr rs'" "all_numeric rs'" "ids rs' = ids ?rs"
    using Cons.IH [of ?rs] by blast
  then show ?case using xs by simp
qed

lemma numeric_views_ok:
  "\<forall>c\<in>set cs. is_numeric c \<Longrightarrow> \<exists>zs. numeric_views cs = Inr zs"
proof (induction cs)
  case Nil
  then show ?case by simp
next
  case (Cons c cs)
  then obtain xs where "c = NumCol xs" by (cases c) (auto simp: is_numeric_def)
  with Cons show ?case by auto
qed

lemma compute_final_score_numeric:
  assumes "all_numeric rs"
  shows "\<exists>rs'. compute_final_score rs = Inr rs' \<and> ids rs' = ids rs \<and>
           (\<exists>cz rk. map_of (cols rs') ''composite_zscore'' = Some (NumCol cz) \<and>
                     map_of (cols rs') ''risk_score'' = Some (NumCol rk))"
proof (cases "filter (\<lambda>p. endswith (fst p) ''_zscore'') (cols rs) = []")
  case True
  then show ?thesis by (simp add: compute_final_score_def map_of_set_col)
next
  case False
  have "\<forall>c\<in>set (map snd (filter (\<lambda>p. endswith (fst p) ''_zscore'') (cols rs))). is_numeric c"
    using assms by (auto simp: all_numeric_def)
  from numeric_views_ok [OF this] obtain zs where
    "numeric_views (map snd (filter (\<lambda>p. endswith (fst p) ''_zscore'') (cols rs))) = Inr zs" ..
  with False show ?thesis by (simp add: compute_final_score_def Let_def map_of_set_col)
qed

lemma aggregate_numeric:
  assumes "ids fs = Some keys" "aggregate_to_customer fs = Inr rs0"
  shows "all_numeric rs0 \<and> ids rs0 = Some (sort (remdups keys)) \<and>
         (\<forall>n xs. (n, NumCol xs) \<in> set (cols rs0) \<longrightarrow> length xs = length (sort (remdups keys)))"
proof -
  have rs0: "rs0 = \<lparr>ids = Some (sort (remdups keys)),
                    cols = concat (map (agg_column keys (sort (remdups keys))) (cols fs))\<rparr>"
    using assms by (auto simp: aggregate_to_customer_def Let_def split: if_splits)
  have col: "p \<in> set (agg_column keys g q) \<Longrightarrow> \<exists>xs. snd p = NumCol xs \<and> length xs = length g" for p g q
  proof (cases q)
    case (Pair n c)
    assume "p \<in> set (agg_column keys g q)"
    with Pair show ?thesis by (cases c) auto
  qed
  show ?thesis
    unfolding rs0 all_numeric_def using col by (fastforce simp: is_numeric_def)
qed


lemma length_dropna: "length (dropna xs) \<le> length xs"
  by (induction xs rule: dropna.induct) auto

lemma exact_std_short: "length (dropna ys) \<le> 1 \<Longrightarrow> exact_std ys = None"
  by (simp add: exact_std_def Let_def)

lemma single_row_not_available:
  assumes "map_of (cols rs) f = Some (NumCol xs)" "length xs \<le> 1"
    and "\<forall>ys. length (dropna ys) \<le> 1 \<longrightarrow> series_std ys = None"
  shows "\<not> available series_std rs f"
proof -
  have "length (dropna xs) \<le> 1"
    using length_dropna [of xs] assms(2) by linarith
  with assms(3) have "series_std xs = None" by blast
  then show ?thesis
    using assms(1) by (simp add: available_def)
qed

lemma no_available_fails:
  assumes "\<forall>rs0. aggregate_to_customer fs = Inr rs0 \<longrightarrow> get_available_features series_std rs0 = []"
  shows "fst (fst (compute_risk_scores series_std self fs)) = False"
  using assms by (auto simp: compute_risk_scores_def Let_def split: sum.splits)

lemma available_iff:
  "available series_std rs f = (\<exists>xs. map_of (cols rs) f = Some (NumCol xs) \<and> gt (series_std xs) (Some 0))"
  by (auto simp: available_def split: option.splits column.splits)

lemma scoring_succeeds:
  assumes k: "ids fs = Some keys" and a: "aggregate_to_customer fs = Inr rs0"
    and f: "f \<in> set risk_features" and x: "map_of (cols rs0) f = Some (NumCol xs)"
    and g: "gt (series_std xs) (Some 0)"
  shows "\<exists>n hi rs. compute_risk_scores series_std self fs = ((True, Scored n hi), self\<lparr>risk_scores := Some rs\<rparr>) \<and>
           ids rs = Some (sort (remdups keys)) \<and> nrows rs = card (set keys)"
proof -
  from aggregate_numeric [OF k a] have num0: "all_numeric rs0"
    and ids0: "ids rs0 = Some (sort (remdups keys))" by simp_all
  have "available series_std rs0 f" using x g by (auto simp: available_iff)
  then have av: "get_available_features series_std rs0 \<noteq> []"
    using f by (auto simp: get_available_features_def filter_empty_conv)
  have sub: "set (get_available_features series_std rs0) \<subseteq> fst ` set (cols rs0)"
  proof
    fix n assume "n \<in> set (get_available_features series_std rs0)"
    then have "available series_std rs0 n" by (simp add: get_available_features_def)
    then obtain ys where "map_of (cols rs0) n = Some (NumCol ys)" by (auto simp: available_iff)
    then have "(n, NumCol ys) \<in> set (cols rs0)" by (rule map_of_SomeD)
    then show "n \<in> fst ` set (cols rs0)" by force
  qed
  from compute_z_scores_numeric [OF num0 sub] obtain rs1 where
    z: "compute_z_scores (get_available_features series_std rs0) rs0 = Inr rs1"
    and num1: "all_numeric rs1" and ids1: "ids rs1 = ids rs0" by blast
  from compute_final_score_numeric [OF num1] obtain rs2 cz rk where
    fs: "compute_final_score rs1 = Inr rs2" and ids2: "ids rs2 = ids rs1"
    and c2: "map_of (cols rs2) ''composite_zscore'' = Some (NumCol cz)"
    and r2: "map_of (cols rs2) ''risk_score'' = Some (NumCol rk)" by blast
  define rs3 where "rs3 = rs2\<lparr>cols := set_col ''risk_band'' (ObjCol (map get_band rk)) (cols rs2)\<rparr>"
  have b: "assign_risk_bands rs2 = Inr rs3"
    using r2 by (simp add: assign_risk_bands_def rs3_def)
  have c3: "map_of (cols rs3) ''composite_zscore'' = Some (NumCol cz)"
    using c2 by (simp add: rs3_def map_of_set_col)
  define rs4 where "rs4 = rs3\<lparr>cols := set_col ''is_anomaly''
     (NumCol (map (\<lambda>v. Some (if gt v (Some (z_score_threshold self)) then 1 else 0)) cz)) (cols rs3)\<rparr>"
  have an: "flag_anomalies (z_score_threshold self) rs3 = Inr rs4"
    using c3 by (simp add: flag_anomalies_def rs4_def)
  have ids4: "ids rs4 = Some (sort (remdups keys))"
    by (simp add: rs4_def rs3_def ids2 ids1 ids0)
  have n4: "nrows rs4 = card (set keys)"
    using ids4 by (simp add: nrows_def length_remdups_card_conv)
  have "compute_risk_scores series_std self fs =
          ((True, Scored (nrows rs4) (high_risk_count rs4)), self\<lparr>risk_scores := Some rs4\<rparr>)"
    using a av z fs b an by (simp add: compute_risk_scores_def Let_def)
  with ids4 n4 show ?thesis by blast
qed

lemma single_customer_fails:
  assumes k: "ids fs = Some keys" and c: "card (set keys) \<le> 1"
    and nan: "\<forall>ys. length (dropna ys) \<le> 1 \<longrightarrow> series_std ys = None"
  shows "fst (fst (compute_risk_scores series_std self fs)) = False"
proof (rule no_available_fails, intro allI impI)
  fix rs0 assume a: "aggregate_to_customer fs = Inr rs0"
  from aggregate_numeric [OF k a] have len:
    "\<forall>n xs. (n, NumCol xs) \<in> set (cols rs0) \<longrightarrow> length xs = length (sort (remdups keys))"
    by simp
  have l1: "length (sort (remdups keys)) \<le> 1"
    using c by (simp add: length_remdups_card_conv)
  have "\<not> available series_std rs0 f" for f
  proof
    assume "available series_std rs0 f"
    then obtain xs where x: "map_of (cols rs0) f = Some (NumCol xs)" by (auto simp: available_iff)
    then have "(f, NumCol xs) \<in> set (cols rs0)" by (rule map_of_SomeD)
    with len l1 have "length xs \<le> 1" by auto
    from single_row_not_available [OF x this nan] \<open>available series_std rs0 f\<close> show False by simp
  qed
  then show "get_available_features series_std rs0 = []"
    by (simp add: get_available_features_def filter_empty_conv)
qed

lemma constant_population_run:
  "compute_risk_scores rounded_std scorer0 constant_population =
     ((True, Scored 3 3),
      scorer0\<lparr>risk_scores := Some \<lparr>ids = Some [''A'', ''B'', ''C''],
        cols = [(''amount'', NumCol [Some (1/10), Some (1/10), Some (1/10)]),
                (''amount_zscore'', NumCol [None, None, None]),
                (''composite_zscore'', NumCol [None, None, None]),
                (''risk_score'', NumCol [Some 50, Some 50, Some 50]),
                (''risk_band'', ObjCol [''High'', ''High'', ''High'']),
                (''is_anomaly'', NumCol [Some 0, Some 0, Some 0])]\<rparr>\<rparr>)"
  by (simp add: constant_population_def rounded_std_def scorer0_def scorer_defs)

text \<open>
  Claim C2, as the code has it, for every function \<open>series_std\<close> in the place of
  \<open>Series.std()\<close>.  \<open>compute_risk_scores\<close> fails whenever the standard deviation that
  the library computes is above 0 for no candidate feature of the aggregate table; this
  is so when there is at most one customer, the computed standard deviation of fewer than
  two values being NaN.  With an originator-id column and a candidate feature whose
  computed standard deviation across customers is above 0 it succeeds, and the result has
  one row per distinct originator id.  A table without an originator-id column is not
  aggregated: its rows are taken as they are.
\<close>

theorem compute_risk_scores_outcome:
  "((\<forall>rs0. aggregate_to_customer fs = Inr rs0 \<longrightarrow>
        (\<forall>f\<in>set risk_features. \<forall>xs. map_of (cols rs0) f = Some (NumCol xs) \<longrightarrow>
            \<not> gt (series_std xs) (Some 0))) \<longrightarrow>
      fst (fst (compute_risk_scores series_std self fs)) = False)
   \<and> (ids fs = Some keys \<and> card (set keys) \<le> 1 \<and>
       (\<forall>ys. length (dropna ys) \<le> 1 \<longrightarrow> series_std ys = None) \<longrightarrow>
         fst (fst (compute_risk_scores series_std self fs)) = False)
   \<and> (ids fs = Some keys \<and> aggregate_to_customer fs = Inr agg \<and> f \<in> set risk_features \<and>
       map_of (cols agg) f = Some (NumCol xs) \<and> gt (series_std xs) (Some 0) \<longrightarrow>
         (\<exists>n hi rs. compute_risk_scores series_std self fs =
                       ((True, Scored n hi), self\<lparr>risk_scores := Some rs\<rparr>) \<and>
                     ids rs = Some (sort (remdups keys)) \<and> nrows rs = card (set keys)))
   \<and> (ids fs = None \<longrightarrow> aggregate_to_customer fs = Inr fs)"
proof (intro conjI impI)
  assume h: "\<forall>rs0. aggregate_to_customer fs = Inr rs0 \<longrightarrow>
        (\<forall>f\<in>set risk_features. \<forall>xs. map_of (cols rs0) f = Some (NumCol xs) \<longrightarrow>
            \<not> gt (series_std xs) (Some 0))"
  have "\<forall>rs0. aggregate_to_customer fs = Inr rs0 \<longrightarrow> get_available_features series_std rs0 = []"
  proof (intro allI impI)
    fix rs0 assume "aggregate_to_customer fs = Inr rs0"
    with h have "\<forall>f\<in>set risk_features. \<not> available series_std rs0 f"
      by (auto simp: available_iff)
    then show "get_available_features series_std rs0 = []"
      by (simp add: get_available_features_def filter_empty_conv)
  qed
  then show "fst (fst (compute_risk_scores series_std self fs)) = False"
    by (rule no_available_fails)
next
  assume "ids fs = Some keys \<and> card (set keys) \<le> 1 \<and>
       (\<forall>ys. length (dropna ys) \<le> 1 \<longrightarrow> series_std ys = None)"
  then show "fst (fst (compute_risk_scores series_std self fs)) = False"
    using single_customer_fails [of fs keys series_std self] by blast
next
  assume "ids fs = Some keys \<and> aggregate_to_customer fs = Inr agg \<and> f \<in> set risk_features \<and>
       map_of (cols agg) f = Some (NumCol xs) \<and> gt (series_std xs) (Some 0)"
  then show "\<exists>n hi rs. compute_risk_scores series_std self fs =
                       ((True, Scored n hi), self\<lparr>risk_scores := Some rs\<rparr>) \<and>
                     ids rs = Some (sort (remdups keys)) \<and> nrows rs = card (set keys)"
    using scoring_succeeds by blast
next
  assume "ids fs = None"
  then show "aggregate_to_customer fs = Inr fs"
    by (simp add: aggregate_to_customer_def)
qed

text \<open>
  A table without an originator-id column is scored all the same: two rows with amounts
  1 and 3 give a successful run.
\<close>

theorem scoring_without_id_column_succeeds:
  "ids no_id_population = None \<and>
   compute_risk_scores exact_std scorer0 no_id_population =
     ((True, Scored 2 2),
      scorer0\<lparr>risk_scores := Some \<lparr>ids = None,
        cols = [(''amount'', NumCol [Some 1, Some 3]),
                (''amount_zscore'', NumCol [Some (-1), Some 1]),
                (''composite_zscore'', NumCol [Some 1, Some 1]),
                (''risk_score'', NumCol [Some 50, Some 50]),
                (''risk_band'', ObjCol [''High'', ''High'']),
                (''is_anomaly'', NumCol [Some 0, Some 0])]\<rparr>\<rparr>)"
  by (simp add: no_id_population_def scorer0_def scorer_defs)


theorem compute_risk_scores_outcome_witness:
  "fst (fst (compute_risk_scores exact_std scorer0 flat_population)) = False
   \<and> ids single_customer = Some [''A'', ''A''] \<and> card (set [''A'', ''A'']) \<le> 1
   \<and> fst (fst (compute_risk_scores exact_std scorer0 single_customer)) = False
   \<and> ids population4 = Some [''A'', ''B'', ''C'', ''D'']
   \<and> aggregate_to_customer population4 = Inr population4
   \<and> gt (exact_std [Some 8, Some 2, Some 2, Some 0]) (Some 0)
   \<and> (\<exists>n hi rs. compute_risk_scores exact_std scorer0 population4 =
                   ((True, Scored n hi), scorer0\<lparr>risk_scores := Some rs\<rparr>) \<and>
                 ids rs = Some [''A'', ''B'', ''C'', ''D''] \<and> nrows rs = 4)
   \<and> ids constant_population = Some [''A'', ''B'', ''C'']
   \<and> aggregate_to_customer constant_population = Inr constant_population
   \<and> gt (rounded_std [Some (1/10), Some (1/10), Some (1/10)]) (Some 0)
   \<and> (\<exists>n hi rs. compute_risk_scores rounded_std scorer0 constant_population =
                   ((True, Scored n hi), scorer0\<lparr>risk_scores := Some rs\<rparr>) \<and>
                 ids rs = Some [''A'', ''B'', ''C''] \<and> nrows rs = 3)"
proof -
  have agg_flat: "aggregate_to_customer flat_population = Inr flat_population"
    by (simp add: flat_population_def scorer_defs)
  have a1: "\<forall>rs0. aggregate_to_customer flat_population = Inr rs0 \<longrightarrow>
        (\<forall>f\<in>set risk_features. \<forall>xs. map_of (cols rs0) f = Some (NumCol xs) \<longrightarrow>
            \<not> gt (exact_std xs) (Some 0))"
    unfolding agg_flat by (auto simp: flat_population_def risk_features_def exact_std_def)
  from compute_risk_scores_outcome [where fs = flat_population and self = scorer0 and series_std = exact_std] a1
  have c1: "fst (fst (compute_risk_scores exact_std scorer0 flat_population)) = False"
    by blast
  have k2: "ids single_customer = Some [''A'', ''A'']" and d2: "card (set [''A'', ''A'']) \<le> 1"
    by (simp_all add: single_customer_def)
  have n2: "\<forall>ys. length (dropna ys) \<le> 1 \<longrightarrow> exact_std ys = None"
    using exact_std_short by blast
  from compute_risk_scores_outcome [where fs = single_customer and self = scorer0 and series_std = exact_std
      and keys = "[''A'', ''A'']"] k2 d2 n2
  have c2: "fst (fst (compute_risk_scores exact_std scorer0 single_customer)) = False"
    by blast
  have k3: "ids population4 = Some [''A'', ''B'', ''C'', ''D'']"
    by (simp add: population4_def)
  have a3: "aggregate_to_customer population4 = Inr population4"
    by (simp add: population4_def scorer_defs)
  have f3: "''amount'' \<in> set risk_features"
    by (simp add: risk_features_def)
  have x3: "map_of (cols population4) ''amount'' = Some (NumCol [Some 8, Some 2, Some 2, Some 0])"
    by (simp add: population4_def)
  have g3: "gt (exact_std [Some 8, Some 2, Some 2, Some 0]) (Some 0)"
    by (simp add: exact_std_def)
  from compute_risk_scores_outcome [where fs = population4 and self = scorer0 and series_std = exact_std
      and keys = "[''A'', ''B'', ''C'', ''D'']" and agg = population4 and f = "''amount''"
      and xs = "[Some 8, Some 2, Some 2, Some 0]"] k3 a3 f3 x3 g3
  have c3: "\<exists>n hi rs. compute_risk_scores exact_std scorer0 population4 =
                   ((True, Scored n hi), scorer0\<lparr>risk_scores := Some rs\<rparr>) \<and>
                 ids rs = Some (sort (remdups [''A'', ''B'', ''C'', ''D''])) \<and>
                 nrows rs = card (set [''A'', ''B'', ''C'', ''D''])"
    by blast
  have s3: "sort (remdups [''A'', ''B'', ''C'', ''D'']) = [''A'', ''B'', ''C'', ''D'']"
    and n3: "card (set [''A'', ''B'', ''C'', ''D'']) = 4"
    by simp_all
  have k4: "ids constant_population = Some [''A'', ''B'', ''C'']"
    by (simp add: constant_population_def)
  have a4: "aggregate_to_customer constant_population = Inr constant_population"
    by (simp add: constant_population_def scorer_defs)
  have x4: "map_of (cols constant_population) ''amount'' =
              Some (NumCol [Some (1/10), Some (1/10), Some (1/10)])"
    by (simp add: constant_population_def)
  have g4: "gt (rounded_std [Some (1/10), Some (1/10), Some (1/10)]) (Some 0)"
    by (simp add: rounded_std_def exact_std_def)
  from compute_risk_scores_outcome [where fs = constant_population and self = scorer0
      and series_std = rounded_std and keys = "[''A'', ''B'', ''C'']"
      and agg = constant_population and f = "''amount''"
      and xs = "[Some (1/10), Some (1/10), Some (1/10)]"] k4 a4 f3 x4 g4
  have c4: "\<exists>n hi rs. compute_risk_scores rounded_std scorer0 constant_population =
                   ((True, Scored n hi), scorer0\<lparr>risk_scores := Some rs\<rparr>) \<and>
                 ids rs = Some (sort (remdups [''A'', ''B'', ''C''])) \<and>
                 nrows rs = card (set [''A'', ''B'', ''C''])"
    by blast
  have s4: "sort (remdups [''A'', ''B'', ''C'']) = [''A'', ''B'', ''C'']"
    and n4: "card (set [''A'', ''B'', ''C'']) = 3"
    by simp_all
  from c1 k2 d2 c2 k3 a3 g3 c3 k4 a4 g4 c4 show ?thesis
    unfolding s3 n3 s4 n4 by (intro conjI)
qed

section \<open>Z-scores and the composite score\<close>

lemma sum_sq_pos:
  fixes zs :: "real list"
  shows "x \<in> set zs \<Longrightarrow> x \<noteq> m \<Longrightarrow> 0 < sum_list (map (\<lambda>z. (z - m)\<^sup>2) zs)"
proof (induction zs)
  case Nil
  then show ?case by simp
next
  case (Cons z zs)
  have nn: "0 \<le> sum_list (map (\<lambda>z. (z - m)\<^sup>2) zs)"
    by (rule sum_list_nonneg) auto
  show ?case
  proof (cases "x = z")
    case True
    with Cons.prems have p: "0 < (z - m)\<^sup>2" by simp
    from add_pos_nonneg [OF p nn] show ?thesis by simp
  next
    case False
    with Cons have p: "0 < sum_list (map (\<lambda>z. (z - m)\<^sup>2) zs)" by simp
    have q: "0 \<le> (z - m)\<^sup>2" by simp
    from add_nonneg_pos [OF q p] show ?thesis by simp
  qed
qed

lemma sum_sq_zero:
  fixes zs :: "real list"
  shows "\<forall>z\<in>set zs. z = m \<Longrightarrow> sum_list (map (\<lambda>z. (z - m)\<^sup>2) zs) = 0"
  by (induction zs) auto

lemma sum_list_const:
  fixes zs :: "real list"
  shows "\<forall>z\<in>set zs. z = c \<Longrightarrow> sum_list zs = real (length zs) * c"
  by (induction zs) (auto simp: algebra_simps)

lemma two_values_dispersion:
  fixes zs :: "real list"
  assumes "a \<in> set zs" "b \<in> set zs" "a \<noteq> b"
  shows "0 < spec_pop_std zs"
proof -
  let ?m = "spec_pop_mean zs"
  have "a \<noteq> ?m \<or> b \<noteq> ?m" using assms(3) by auto
  then have "0 < sum_list (map (\<lambda>z. (z - ?m)\<^sup>2) zs)"
    using sum_sq_pos assms(1,2) by blast
  moreover have "0 < real (length zs)" using assms(1) by (cases zs) auto
  ultimately have "0 < sum_list (map (\<lambda>z. (z - ?m)\<^sup>2) zs) / real (length zs)"
    by (rule divide_pos_pos)
  then show ?thesis
    unfolding spec_pop_std_def by (rule real_sqrt_gt_zero)
qed

lemma constant_no_dispersion:
  fixes zs :: "real list"
  assumes "\<forall>a\<in>set zs. \<forall>b\<in>set zs. a = b"
  shows "spec_pop_std zs = 0"
proof (cases zs)
  case Nil
  then show ?thesis by (simp add: spec_pop_std_def)
next
  case (Cons c cs)
  then have all: "\<forall>z\<in>set zs. z = c" using assms by simp
  have "spec_pop_mean zs = c"
    using sum_list_const [OF all] Cons by (simp add: spec_pop_mean_def)
  then have "sum_list (map (\<lambda>z. (z - spec_pop_mean zs)\<^sup>2) zs) = 0"
    using sum_sq_zero [OF all] by simp
  then show ?thesis by (simp add: spec_pop_std_def)
qed

lemma pop_std_zero_iff:
  "(spec_pop_std zs = 0) = (\<forall>a\<in>set zs. \<forall>b\<in>set zs. a = b)"
proof
  assume z: "spec_pop_std zs = 0"
  show "\<forall>a\<in>set zs. \<forall>b\<in>set zs. a = b"
  proof (intro ballI, rule ccontr)
    fix a b assume "a \<in> set zs" "b \<in> set zs" "a \<noteq> b"
    from two_values_dispersion [OF this] z show False by simp
  qed
next
  assume "\<forall>a\<in>set zs. \<forall>b\<in>set zs. a = b"
  then show "spec_pop_std zs = 0" by (rule constant_no_dispersion)
qed

lemma fillna0_spec: "fillna0 xs = spec_filled xs"
  by (induction xs) (auto simp: fillna0_def spec_filled_def)

lemma zscore_spec:
  "zscore (fillna0 xs) =
     map (\<lambda>i. if spec_pop_std (spec_filled xs) = 0 then None else Some (spec_zscore xs i))
       [0..<length xs]"
proof -
  have len: "length (spec_filled xs) = length xs" by (simp add: spec_filled_def)
  have "zscore ys =
          map (\<lambda>x. if spec_pop_std ys = 0 then None
                   else Some ((x - spec_pop_mean ys) / spec_pop_std ys)) ys" for ys
    unfolding zscore_def Let_def spec_pop_std_def spec_pop_mean_def ..
  then have "zscore (fillna0 xs) =
          map (\<lambda>x. if spec_pop_std (spec_filled xs) = 0 then None
                   else Some ((x - spec_pop_mean (spec_filled xs)) / spec_pop_std (spec_filled xs)))
            (spec_filled xs)"
    by (simp only: fillna0_spec)
  also have "\<dots> = map (\<lambda>i. if spec_pop_std (spec_filled xs) = 0 then None
                           else Some (spec_zscore xs i)) [0..<length xs]"
    by (rule nth_equalityI) (simp_all add: len spec_zscore_def)
  finally show ?thesis .
qed

subsection \<open>The z-score columns of a run\<close>

lemma agg_names:
  "map fst (concat (map (agg_column keys g) cs)) = map fst (filter (\<lambda>p. is_numeric (snd p)) cs)"
proof (induction cs)
  case Nil
  then show ?case by simp
next
  case (Cons p cs)
  obtain n c where p: "p = (n, c)" by (cases p)
  show ?case using Cons by (cases c) (simp_all add: p is_numeric_def)
qed

lemma agg_col_len:
  "p \<in> set (concat (map (agg_column keys g) cs)) \<Longrightarrow> col_len (snd p) = length g"
proof (induction cs)
  case Nil
  then show ?case by simp
next
  case (Cons q cs)
  obtain n c where q: "q = (n, c)" by (cases q)
  show ?case using Cons by (cases c) (auto simp: q)
qed

lemma aggregate_wf:
  assumes "wf_frame fs" "aggregate_to_customer fs = Inr agg"
  shows "wf_frame agg \<and> fst ` set (cols agg) \<subseteq> fst ` set (cols fs)"
proof (cases "ids fs")
  case None
  with assms show ?thesis by (simp add: aggregate_to_customer_def)
next
  case (Some keys)
  let ?g = "sort (remdups keys)"
  have agg: "agg = \<lparr>ids = Some ?g, cols = concat (map (agg_column keys ?g) (cols fs))\<rparr>"
    using assms(2) Some by (auto simp: aggregate_to_customer_def Let_def split: if_splits)
  have d: "distinct (map fst (cols agg))"
    using assms(1) by (simp add: agg agg_names wf_frame_def distinct_map_filter)
  have l: "\<forall>p\<in>set (cols agg). col_len (snd p) = nrows agg"
    using agg_col_len [of _ keys ?g "cols fs"] by (simp add: agg nrows_def)
  have "set (map fst (cols agg)) \<subseteq> set (map fst (cols fs))"
    unfolding agg by (auto simp: agg_names)
  then have n: "fst ` set (cols agg) \<subseteq> fst ` set (cols fs)" by simp
  from d l n show ?thesis by (simp add: wf_frame_def)
qed

lemma set_col_new: "n \<notin> fst ` set cs \<Longrightarrow> set_col n c cs = cs @ [(n, c)]"
  by (induction cs) auto

lemma zname_inj: "f @ ''_zscore'' = g @ ''_zscore'' \<Longrightarrow> f = g"
  by simp

lemma num_col_append:
  "n \<in> fst ` set (cols rs) \<Longrightarrow> num_col (rs\<lparr>cols := cols rs @ ys\<rparr>) n = num_col rs n"
proof -
  assume "n \<in> fst ` set (cols rs)"
  then obtain c where "map_of (cols rs) n = Some c"
    by (metis domD dom_map_of_conv_image_fst)
  then show ?thesis by (simp add: num_col_def map_add_def)
qed

lemma compute_z_scores_append:
  assumes "distinct fs"
    and "\<forall>f\<in>set fs. \<exists>xs. map_of (cols rs) f = Some (NumCol xs)"
    and "\<forall>f\<in>set fs. f @ ''_zscore'' \<notin> fst ` set (cols rs)"
  shows "compute_z_scores fs rs = Inr (rs\<lparr>cols := cols rs @ zcols rs fs\<rparr>)"
  using assms
proof (induction fs arbitrary: rs)
  case Nil
  then show ?case by (simp add: zcols_def)
next
  case (Cons f fs)
  from Cons.prems(2) obtain xs where xs: "map_of (cols rs) f = Some (NumCol xs)" by auto
  have nc: "num_col rs f = xs" by (simp add: num_col_def xs)
  let ?z = "(f @ ''_zscore'', NumCol (zscore (fillna0 xs)))"
  let ?rs = "rs\<lparr>cols := cols rs @ [?z]\<rparr>"
  have new: "f @ ''_zscore'' \<notin> fst ` set (cols rs)" using Cons.prems(3) by simp
  have step: "compute_z_scores (f # fs) rs = compute_z_scores fs ?rs"
    using xs by (simp add: set_col_new [OF new])
  have pres: "g \<in> fst ` set (cols rs)" if "g \<in> set fs" for g
  proof -
    from Cons.prems(2) that obtain ys where "map_of (cols rs) g = Some (NumCol ys)" by auto
    then have "(g, NumCol ys) \<in> set (cols rs)" by (rule map_of_SomeD)
    then show ?thesis by force
  qed
  have 1: "distinct fs" using Cons.prems(1) by simp
  have 2: "\<forall>g\<in>set fs. \<exists>ys. map_of (cols ?rs) g = Some (NumCol ys)"
  proof
    fix g assume g: "g \<in> set fs"
    from Cons.prems(2) g obtain ys where "map_of (cols rs) g = Some (NumCol ys)" by auto
    then show "\<exists>ys. map_of (cols ?rs) g = Some (NumCol ys)" by (simp add: map_add_def)
  qed
  have 3: "\<forall>g\<in>set fs. g @ ''_zscore'' \<notin> fst ` set (cols ?rs)"
  proof
    fix g assume g: "g \<in> set fs"
    then have "g \<noteq> f" using Cons.prems(1) by auto
    moreover have "g @ ''_zscore'' \<notin> fst ` set (cols rs)" using Cons.prems(3) g by simp
    ultimately show "g @ ''_zscore'' \<notin> fst ` set (cols ?rs)" by auto
  qed
  have same: "zcols ?rs fs = zcols rs fs"
    unfolding zcols_def
  proof (rule map_cong [OF refl])
    fix g assume "g \<in> set fs"
    from num_col_append [OF pres [OF this], of "[?z]"]
    show "(g @ ''_zscore'', NumCol (zscore (fillna0 (num_col ?rs g)))) =
          (g @ ''_zscore'', NumCol (zscore (fillna0 (num_col rs g))))" by simp
  qed
  have "compute_z_scores fs ?rs = Inr (?rs\<lparr>cols := cols ?rs @ zcols ?rs fs\<rparr>)"
    by (rule Cons.IH [OF 1 2 3])
  then have ih: "compute_z_scores fs ?rs = Inr (?rs\<lparr>cols := cols ?rs @ zcols rs fs\<rparr>)"
    unfolding same .
  have "zcols rs (f # fs) = ?z # zcols rs fs"
    by (simp add: zcols_def nc)
  then show ?case
    unfolding step ih by simp
qed

lemma filter_zcols:
  "filter (\<lambda>p. endswith (fst p) ''_zscore'') (zcols rs fs) = zcols rs fs"
  by (rule filter_True) (auto simp: zcols_def)

lemma numeric_views_zcols:
  "numeric_views (map snd (zcols rs fs)) = Inr (map (\<lambda>f. zscore (fillna0 (num_col rs f))) fs)"
  by (induction fs) (simp_all add: zcols_def)

lemma map_of_zcols:
  "f \<in> set fs \<Longrightarrow>
     map_of (zcols rs fs) (f @ ''_zscore'') = Some (NumCol (zscore (fillna0 (num_col rs f))))"
  by (induction fs) (auto simp: zcols_def)

lemma nrows_append:
  "cols rs \<noteq> [] \<Longrightarrow> nrows (rs\<lparr>cols := cols rs @ ys\<rparr>) = nrows rs"
  by (cases "cols rs") (auto simp: nrows_def split: option.splits)

lemma dropna_map_if:
  "dropna (map (\<lambda>f. if P f then None else Some (g f)) fs) = map g (filter (\<lambda>f. \<not> P f) fs)"
  by (induction fs) auto

lemma compute_final_score_zcols:
  assumes nz: "\<forall>n\<in>fst ` set (cols agg). \<not> endswith n ''_zscore''" and ne: "fs \<noteq> []"
  shows "compute_final_score (agg\<lparr>cols := cols agg @ zcols agg fs\<rparr>) =
    Inr (agg\<lparr>cols :=
      set_col ''risk_score''
        (NumCol (minmax_scale (map (row_abs_mean (map (\<lambda>f. zscore (fillna0 (num_col agg f))) fs))
                   [0..<nrows (agg\<lparr>cols := cols agg @ zcols agg fs\<rparr>)])))
        (set_col ''composite_zscore''
           (NumCol (map (row_abs_mean (map (\<lambda>f. zscore (fillna0 (num_col agg f))) fs))
                   [0..<nrows (agg\<lparr>cols := cols agg @ zcols agg fs\<rparr>)]))
           (cols agg @ zcols agg fs))\<rparr>)"
proof -
  have a: "filter (\<lambda>p. endswith (fst p) ''_zscore'') (cols agg) = []"
    using nz by (auto simp: filter_empty_conv)
  have z: "zcols agg fs \<noteq> []" using ne by (simp add: zcols_def)
  show ?thesis
    using z by (simp add: compute_final_score_def Let_def a filter_zcols numeric_views_zcols)
qed

lemma row_abs_mean_zscores:
  assumes v: "\<forall>f\<in>set fs. zscore (fillna0 (num_col agg f)) ! i =
                (if spec_pop_std (spec_filled (num_col agg f)) = 0 then None
                 else Some (spec_zscore (num_col agg f) i))"
  shows "row_abs_mean (map (\<lambda>f. zscore (fillna0 (num_col agg f))) fs) i =
           (let good = filter (\<lambda>f. spec_pop_std (spec_filled (num_col agg f)) \<noteq> 0) fs
            in if good = [] then None
               else Some (sum_list (map (\<lambda>f. \<bar>spec_zscore (num_col agg f) i\<bar>) good)
                          / real (length good)))"
proof -
  have "map (\<lambda>z. map_option abs (z ! i)) (map (\<lambda>f. zscore (fillna0 (num_col agg f))) fs) =
          map (\<lambda>f. if spec_pop_std (spec_filled (num_col agg f)) = 0 then None
                   else Some \<bar>spec_zscore (num_col agg f) i\<bar>) fs"
    unfolding map_map comp_def by (rule map_cong [OF refl]) (use v in simp)
  then have "row_abs_mean (map (\<lambda>f. zscore (fillna0 (num_col agg f))) fs) i =
               mean (map (\<lambda>f. \<bar>spec_zscore (num_col agg f) i\<bar>)
                      (filter (\<lambda>f. \<not> spec_pop_std (spec_filled (num_col agg f)) = 0) fs))"
    unfolding row_abs_mean_def by (simp only: dropna_map_if)
  then show ?thesis
    by (simp add: mean_def Let_def)
qed

lemma distinct_risk_features: "distinct risk_features"
  by (simp add: risk_features_def)

lemma zname_not_reserved:
  assumes "f \<in> set risk_features"
  shows "f @ ''_zscore'' \<noteq> ''composite_zscore''" "f @ ''_zscore'' \<noteq> ''risk_score''"
    "f @ ''_zscore'' \<noteq> ''risk_band''" "f @ ''_zscore'' \<noteq> ''is_anomaly''"
proof -
  have e: "endswith (f @ ''_zscore'') ''_zscore''" by simp
  show "f @ ''_zscore'' \<noteq> ''risk_score''" "f @ ''_zscore'' \<noteq> ''risk_band''"
    "f @ ''_zscore'' \<noteq> ''is_anomaly''"
    using e by (auto simp: endswith_def)
  have "f \<noteq> ''composite''" using assms by (auto simp: risk_features_def)
  moreover have "''composite_zscore'' = ''composite'' @ ''_zscore''" by simp
  ultimately show "f @ ''_zscore'' \<noteq> ''composite_zscore''"
    by (metis zname_inj)
qed

text \<open>
  Claim C4, for every function \<open>series_std\<close> in the place of \<open>Series.std()\<close>.  Take a
  successful run on a well-formed feature table none of whose columns has a name ending
  in \<open>_zscore\<close>.  Every eligible feature gets a z-score column: a missing value counts as
  0, and the entry of a customer is the filled value minus the population mean, divided
  by the population standard deviation (ddof = 0) over all customers of the run.  That
  standard deviation is 0 exactly when all filled values are equal (the eligibility test
  of the library can let such a column pass by rounding); the entries are then NaN.  The
  composite of a customer is the arithmetic mean of the absolute values of that
  customer's z-scores that are numbers, so of all of them when no column is constant, and
  NaN when there is none.
\<close>

theorem composite_is_mean_abs_zscore:
  assumes run: "compute_risk_scores series_std self fs = ((True, msg), self')"
    and wf: "wf_frame fs"
    and nz: "\<forall>n\<in>fst ` set (cols fs). \<not> endswith n ''_zscore''"
    and ag: "aggregate_to_customer fs = Inr agg"
  shows "\<exists>rs cz. risk_scores self' = Some rs \<and>
      map_of (cols rs) ''composite_zscore'' = Some (NumCol cz) \<and>
      length cz = nrows agg \<and> get_available_features series_std agg \<noteq> [] \<and>
      (\<forall>f\<in>set (get_available_features series_std agg).
          ((spec_pop_std (spec_filled (num_col agg f)) = 0) =
             (\<forall>a\<in>set (spec_filled (num_col agg f)). \<forall>b\<in>set (spec_filled (num_col agg f)). a = b)) \<and>
          map_of (cols rs) (f @ ''_zscore'') =
            Some (NumCol (map (\<lambda>i. if spec_pop_std (spec_filled (num_col agg f)) = 0 then None
                                     else Some (spec_zscore (num_col agg f) i))
                            [0..<nrows agg]))) \<and>
      (\<forall>i<nrows agg.
          cz ! i =
            (let good = filter (\<lambda>f. spec_pop_std (spec_filled (num_col agg f)) \<noteq> 0)
                          (get_available_features series_std agg)
             in if good = [] then None
                else Some (sum_list (map (\<lambda>f. \<bar>spec_zscore (num_col agg f) i\<bar>) good)
                           / real (length good))))"
proof -
  let ?av = "get_available_features series_std agg"
  let ?zs = "map (\<lambda>f. zscore (fillna0 (num_col agg f))) ?av"
  let ?rs1 = "agg\<lparr>cols := cols agg @ zcols agg ?av\<rparr>"
  let ?cz = "map (row_abs_mean ?zs) [0..<nrows ?rs1]"
  let ?z = "\<lambda>g. map (\<lambda>i. if spec_pop_std (spec_filled (num_col agg g)) = 0 then None
                          else Some (spec_zscore (num_col agg g) i)) [0..<nrows agg]"
  from compute_risk_scores_success [OF run] ag
  obtain rs1 rs2 rs3 rs4 where
    av: "?av \<noteq> []" and
    z: "compute_z_scores ?av agg = Inr rs1" and
    f: "compute_final_score rs1 = Inr rs2" and
    b: "assign_risk_bands rs2 = Inr rs3" and
    a: "flag_anomalies (z_score_threshold self) rs3 = Inr rs4" and
    s: "self' = self\<lparr>risk_scores := Some rs4\<rparr>"
    by auto
  from aggregate_wf [OF wf ag] have wfa: "wf_frame agg"
    and sub: "fst ` set (cols agg) \<subseteq> fst ` set (cols fs)" by simp_all
  have nza: "\<forall>n\<in>fst ` set (cols agg). \<not> endswith n ''_zscore''"
    using nz sub by blast
  have avr: "set ?av \<subseteq> set risk_features"
    by (auto simp: get_available_features_def)
  have dav: "distinct ?av"
    by (simp add: get_available_features_def distinct_risk_features)
  have avx: "\<exists>xs. map_of (cols agg) g = Some (NumCol xs)"
    if "g \<in> set ?av" for g
    using that by (auto simp: get_available_features_def available_iff)
  have col: "map_of (cols agg) g = Some (NumCol (num_col agg g)) \<and>
             length (num_col agg g) = nrows agg"
    if g: "g \<in> set ?av" for g
  proof -
    from avx [OF g] obtain xs where x: "map_of (cols agg) g = Some (NumCol xs)" by blast
    have n: "num_col agg g = xs" by (simp add: num_col_def x)
    from x have "(g, NumCol xs) \<in> set (cols agg)" by (rule map_of_SomeD)
    with wfa have "length xs = nrows agg" by (auto simp: wf_frame_def)
    with x n show ?thesis by simp
  qed
  have zval: "zscore (fillna0 (num_col agg g)) = ?z g"
    if g: "g \<in> set ?av" for g
    using zscore_spec [of "num_col agg g"] col [OF g] by simp
  have pre2: "\<forall>g\<in>set ?av. \<exists>xs. map_of (cols agg) g = Some (NumCol xs)"
    using avx by blast
  have pre3: "\<forall>g\<in>set ?av. g @ ''_zscore'' \<notin> fst ` set (cols agg)"
    using nza endswith_append by blast
  have rs1: "rs1 = ?rs1"
    using compute_z_scores_append [OF dav pre2 pre3] z by simp
  from av obtain g0 where g0: "g0 \<in> set ?av" by (cases ?av) auto
  have "cols agg \<noteq> []" using col [OF g0] by auto
  then have nr: "nrows ?rs1 = nrows agg" by (rule nrows_append)
  have rs2: "rs2 = agg\<lparr>cols := set_col ''risk_score'' (NumCol (minmax_scale ?cz))
                 (set_col ''composite_zscore'' (NumCol ?cz) (cols agg @ zcols agg ?av))\<rparr>"
    using compute_final_score_zcols [OF nza av] f unfolding rs1 by simp
  have keep: "map_of (cols rs4) n = map_of (cols rs2) n"
    if "n \<noteq> ''risk_band''" "n \<noteq> ''is_anomaly''" for n
    using assign_risk_bands_cols [OF b that(1)] flag_anomalies_cols [OF a that(2)] by simp
  have c4: "map_of (cols rs4) ''composite_zscore'' = Some (NumCol ?cz)"
    by (simp add: keep rs2 map_of_set_col)
  have len: "length ?cz = nrows agg" by (simp add: nr)
  have zc: "((spec_pop_std (spec_filled (num_col agg g)) = 0) =
             (\<forall>a\<in>set (spec_filled (num_col agg g)). \<forall>b\<in>set (spec_filled (num_col agg g)). a = b)) \<and>
            map_of (cols rs4) (g @ ''_zscore'') = Some (NumCol (?z g))"
    if g: "g \<in> set ?av" for g
  proof -
    have r: "g \<in> set risk_features" using g avr by blast
    note nr4 = zname_not_reserved [OF r]
    have "map_of (cols rs4) (g @ ''_zscore'') = map_of (cols rs2) (g @ ''_zscore'')"
      by (rule keep) (rule nr4)+
    also have "\<dots> = map_of (cols agg @ zcols agg ?av) (g @ ''_zscore'')"
      using nr4 by (simp add: rs2 map_of_set_col)
    also have "\<dots> = map_of (zcols agg ?av) (g @ ''_zscore'')"
    proof -
      have "map_of (cols agg) (g @ ''_zscore'') = None"
        using pre3 g by (simp add: map_of_eq_None_iff)
      then show ?thesis by (simp add: map_add_def)
    qed
    also have "\<dots> = Some (NumCol (zscore (fillna0 (num_col agg g))))"
      by (rule map_of_zcols [OF g])
    finally have "map_of (cols rs4) (g @ ''_zscore'') = Some (NumCol (?z g))"
      unfolding zval [OF g] .
    with pop_std_zero_iff [of "spec_filled (num_col agg g)"] show ?thesis by (intro conjI)
  qed
  have comp: "?cz ! i =
            (let good = filter (\<lambda>f. spec_pop_std (spec_filled (num_col agg f)) \<noteq> 0) ?av
             in if good = [] then None
                else Some (sum_list (map (\<lambda>f. \<bar>spec_zscore (num_col agg f) i\<bar>) good)
                           / real (length good)))"
    if i: "i < nrows agg" for i
  proof -
    have v: "\<forall>g\<in>set ?av. zscore (fillna0 (num_col agg g)) ! i =
                (if spec_pop_std (spec_filled (num_col agg g)) = 0 then None
                 else Some (spec_zscore (num_col agg g) i))"
      using zval i by simp
    have "?cz ! i = row_abs_mean ?zs i" using i nr by simp
    then show ?thesis unfolding row_abs_mean_zscores [OF v] .
  qed
  have st: "risk_scores self' = Some rs4" using s by simp
  show ?thesis
    apply (rule exI [of _ rs4], rule exI [of _ ?cz])
    using st c4 len av zc comp by blast
qed

lemma population_nan_run:
  "compute_risk_scores exact_std scorer0 population_nan =
     ((True, Scored 4 2),
      scorer0\<lparr>risk_scores := Some \<lparr>ids = Some [''A'', ''B'', ''C'', ''D''],
        cols = [(''amount'', NumCol [Some 8, Some 2, Some 2, None]),
                (''trns_total_customer'', NumCol [Some 1, Some 3, Some 1, Some 3]),
                (''amount_zscore'', NumCol [Some (5/3), Some (-1/3), Some (-1/3), Some (-1)]),
                (''trns_total_customer_zscore'', NumCol [Some (-1), Some 1, Some (-1), Some 1]),
                (''composite_zscore'', NumCol [Some (4/3), Some (2/3), Some (2/3), Some 1]),
                (''risk_score'', NumCol [Some 100, Some 0, Some 0, Some 50]),
                (''risk_band'', ObjCol [''Critical'', ''Low'', ''Low'', ''High'']),
                (''is_anomaly'', NumCol [Some 0, Some 0, Some 0, Some 0])]\<rparr>\<rparr>)"
  by (simp add: population_nan_def scorer0_def scorer_defs)

theorem composite_is_mean_abs_zscore_witness:
  "wf_frame population_nan
   \<and> map fst (cols population_nan) = [''amount'', ''trns_total_customer'']
   \<and> \<not> endswith ''amount'' ''_zscore'' \<and> \<not> endswith ''trns_total_customer'' ''_zscore''
   \<and> aggregate_to_customer population_nan = Inr population_nan
   \<and> get_available_features exact_std population_nan = [''amount'', ''trns_total_customer'']
   \<and> get_available_features exact_std population_nan \<noteq> []
   \<and> num_col population_nan ''amount'' = [Some 8, Some 2, Some 2, None]
   \<and> spec_filled (num_col population_nan ''amount'') = [8, 2, 2, 0]
   \<and> spec_pop_mean (spec_filled (num_col population_nan ''amount'')) = 3
   \<and> spec_pop_std (spec_filled (num_col population_nan ''amount'')) = 3
   \<and> map (spec_zscore (num_col population_nan ''amount'')) [0, 1, 2, 3] = [5/3, -1/3, -1/3, -1]
   \<and> map (spec_zscore (num_col population_nan ''trns_total_customer'')) [0, 1, 2, 3]
        = [-1, 1, -1, 1]
   \<and> map_option (\<lambda>rs. map_of (cols rs) ''composite_zscore'')
        (risk_scores (snd (compute_risk_scores exact_std scorer0 population_nan))) =
       Some (Some (NumCol [Some (4/3), Some (2/3), Some (2/3), Some 1]))
   \<and> wf_frame constant_population
   \<and> map fst (cols constant_population) = [''amount'']
   \<and> aggregate_to_customer constant_population = Inr constant_population
   \<and> get_available_features rounded_std constant_population = [''amount'']
   \<and> spec_filled (num_col constant_population ''amount'') = [1/10, 1/10, 1/10]
   \<and> spec_pop_std (spec_filled (num_col constant_population ''amount'')) = 0
   \<and> map_option (\<lambda>rs. (map_of (cols rs) ''amount_zscore'', map_of (cols rs) ''composite_zscore''))
        (risk_scores (snd (compute_risk_scores rounded_std scorer0 constant_population))) =
       Some (Some (NumCol [None, None, None]), Some (NumCol [None, None, None]))"
proof -
  have wf: "wf_frame population_nan"
    by (simp add: wf_frame_def population_nan_def nrows_def)
  have nz: "\<forall>n\<in>fst ` set (cols population_nan). \<not> endswith n ''_zscore''"
    by (simp add: population_nan_def endswith_def)
  have ag: "aggregate_to_customer population_nan = Inr population_nan"
    by (simp add: population_nan_def scorer_defs)
  have av: "get_available_features exact_std population_nan = [''amount'', ''trns_total_customer'']"
    by (simp add: population_nan_def get_available_features_def available_def risk_features_def
        exact_std_def)
  from composite_is_mean_abs_zscore [OF population_nan_run wf nz ag]
  have ne: "get_available_features exact_std population_nan \<noteq> []" by blast
  have nc: "num_col population_nan ''amount'' = [Some 8, Some 2, Some 2, None]"
    and nt: "num_col population_nan ''trns_total_customer'' = [Some 1, Some 3, Some 1, Some 3]"
    by (simp_all add: num_col_def population_nan_def)
  have fl: "spec_filled (num_col population_nan ''amount'') = [8, 2, 2, 0]"
    by (simp add: nc spec_filled_def)
  have ft: "spec_filled (num_col population_nan ''trns_total_customer'') = [1, 3, 1, 3]"
    by (simp add: nt spec_filled_def)
  have m: "spec_pop_mean (spec_filled (num_col population_nan ''amount'')) = 3"
    by (simp add: fl spec_pop_mean_def)
  have sd: "spec_pop_std (spec_filled (num_col population_nan ''amount'')) = 3"
    by (simp add: fl spec_pop_std_def spec_pop_mean_def)
  have zv: "map (spec_zscore (num_col population_nan ''amount'')) [0, 1, 2, 3] = [5/3, -1/3, -1/3, -1]"
    unfolding spec_zscore_def m sd by (simp add: fl)
  have zt: "map (spec_zscore (num_col population_nan ''trns_total_customer'')) [0, 1, 2, 3]
              = [-1, 1, -1, 1]"
    unfolding spec_zscore_def ft by (simp add: spec_pop_std_def spec_pop_mean_def)
  have cz: "map_option (\<lambda>rs. map_of (cols rs) ''composite_zscore'')
        (risk_scores (snd (compute_risk_scores exact_std scorer0 population_nan))) =
       Some (Some (NumCol [Some (4/3), Some (2/3), Some (2/3), Some 1]))"
    by (simp add: population_nan_run)
  have nm: "map fst (cols population_nan) = [''amount'', ''trns_total_customer'']"
    and ns: "\<not> endswith ''amount'' ''_zscore''"
    and nu: "\<not> endswith ''trns_total_customer'' ''_zscore''"
    by (simp_all add: population_nan_def endswith_def)
  have wf2: "wf_frame constant_population"
    by (simp add: wf_frame_def constant_population_def nrows_def)
  have nz2: "\<forall>n\<in>fst ` set (cols constant_population). \<not> endswith n ''_zscore''"
    by (simp add: constant_population_def endswith_def)
  have nm2: "map fst (cols constant_population) = [''amount'']"
    by (simp add: constant_population_def)
  have ag2: "aggregate_to_customer constant_population = Inr constant_population"
    by (simp add: constant_population_def scorer_defs)
  have av2: "get_available_features rounded_std constant_population = [''amount'']"
    by (simp add: constant_population_def get_available_features_def available_def
        risk_features_def rounded_std_def exact_std_def)
  have fl2: "spec_filled (num_col constant_population ''amount'') = [1/10, 1/10, 1/10]"
    by (simp add: num_col_def constant_population_def spec_filled_def)
  from composite_is_mean_abs_zscore [OF constant_population_run wf2 nz2 ag2]
  have "(spec_pop_std (spec_filled (num_col constant_population ''amount'')) = 0) =
          (\<forall>a\<in>set (spec_filled (num_col constant_population ''amount'')).
             \<forall>b\<in>set (spec_filled (num_col constant_population ''amount'')). a = b)"
    unfolding av2 by auto
  then have sd2: "spec_pop_std (spec_filled (num_col constant_population ''amount'')) = 0"
    unfolding fl2 by simp
  have cz2: "map_option (\<lambda>rs. (map_of (cols rs) ''amount_zscore'', map_of (cols rs) ''composite_zscore''))
        (risk_scores (snd (compute_risk_scores rounded_std scorer0 constant_population))) =
       Some (Some (NumCol [None, None, None]), Some (NumCol [None, None, None]))"
    by (simp add: constant_population_run)
  from wf nm ns nu ag av ne nc fl m sd zv zt cz wf2 nm2 ag2 av2 fl2 sd2 cz2
  show ?thesis by (intro conjI)
qed

end
